theory Spec2Isabelle
  imports
    Complex_Main
    "HOL-Library.Word"
    "HOL-Library.Char_ord"
    "HOL-Library.List_Lexorder"
    "HOL-Library.Multiset"
    "HOL-Library.AList"
begin

section \<open>Data model of the GROUP BY operation (src/engine/GroupBy.cpp)\<close>

text \<open>
  An \<open>Id\<close> is an unsigned 64-bit integer (\<open>uint64_t\<close>); rows are sequences of Ids.
  Row and block indices are \<open>size_t\<close> values bounded by the length of a vector that
  exists in memory, so they are natural numbers here; wherever the source subtracts
  \<open>size_t\<close> values the 64-bit wrap-around is written out (\<open>size_sub\<close>, or arithmetic
  on \<open>64 word\<close>).
\<close>

type_synonym Id = "64 word"

text \<open>
  Modelled from the spec: \<open>ResultTable::ResultType\<close> is declared in ResultTable.h, which
  is not part of the sources at hand. The spec lists the members
  VERBATIM, FLOAT, STRING, TEXT, KB and UNDEF.
\<close>

datatype ResultType = KB | VERBATIM | TEXT | FLOAT | STRING | UNDEF

text \<open>
  \<open>GroupBy::AggregateType\<close>, in the order of the \<open>switch\<close> in \<open>processGroup\<close>. The names
  MAX, MIN and SUM are reserved words of the term language and carry a suffix.
\<close>

datatype AggregateType =
  AVG | COUNT | GROUP_CONCAT | MAX_agg | MIN_agg | SAMPLE | SUM_agg | FIRST | LAST

text \<open>
  \<open>ParsedQuery::Alias\<close> and \<open>GroupBy::Aggregate\<close>. The fields are the source's
  \<open>_outVarName\<close>, \<open>_function\<close>, \<open>_isAggregate\<close> and \<open>_type\<close>, \<open>_inCol\<close>, \<open>_outCol\<close>,
  \<open>_userData\<close>, \<open>_distinct\<close> (an identifier cannot start with an underscore, and
  \<open>function\<close>, \<open>distinct\<close> are taken). \<open>_userData\<close> is a pointer that is either null or
  points to the separator string of a GROUP_CONCAT.
\<close>

record Alias =
  outVarName :: string
  func :: string
  isAggregate :: bool

record Aggregate =
  aggType :: AggregateType
  inCol :: nat
  outCol :: nat
  userData :: "string option"
  isDistinct :: bool

text \<open>
  What can go wrong at run time: \<open>std::string::substr\<close> throws \<open>std::out_of_range\<close> when
  the start position lies behind the end of the string; reading or writing a vector or
  array element behind its end, dereferencing a null pointer and dereferencing the
  \<open>end()\<close> iterator of a map are undefined behaviour in C++ and are errors of the model.
\<close>

datatype error = OutOfRange | OutOfBounds | NullDeref | EndIterator

datatype LogMsg =
  GroupByVariableNotPartOfQuery string
  | UnknownAggregate string
  | UnableToParseDelimiter string
  | AliasRefersToMissingColumn string

section \<open>String helpers\<close>

text \<open>
  Modelled from the spec: \<open>ad_utility::startsWith\<close> (util/StringUtils.h, not part of the
  sources at hand) is the prefix test the spec names in its external interfaces.
\<close>

fun startsWith :: "string \<Rightarrow> string \<Rightarrow> bool" where
  "startsWith text [] = True"
| "startsWith [] (p # ps) = False"
| "startsWith (c # cs) (p # ps) = (c = p \<and> startsWith cs ps)"

text \<open>\<open>std::string::find(char)\<close> and \<open>rfind(char)\<close>; \<open>None\<close> stands for \<open>npos\<close>.\<close>

fun find_char :: "char \<Rightarrow> string \<Rightarrow> nat option" where
  "find_char c [] = None"
| "find_char c (x # xs) =
     (if x = c then Some 0 else map_option Suc (find_char c xs))"

fun rfind_char :: "char \<Rightarrow> string \<Rightarrow> nat option" where
  "rfind_char c [] = None"
| "rfind_char c (x # xs) =
     (case rfind_char c xs of
        Some i \<Rightarrow> Some (Suc i)
      | None \<Rightarrow> (if x = c then Some 0 else None))"

text \<open>\<open>std::string::find(const char*)\<close>: the first position where the pattern occurs.\<close>

fun find_str :: "string \<Rightarrow> string \<Rightarrow> nat option" where
  "find_str pat [] = (if pat = [] then Some 0 else None)"
| "find_str pat (x # xs) =
     (if startsWith (x # xs) pat then Some 0 else map_option Suc (find_str pat xs))"

text \<open>
  \<open>std::string::substr(pos, count)\<close> throws when \<open>pos > size()\<close> and otherwise clips
  the count to the rest of the string; \<open>substr(pos)\<close> takes the whole rest.
\<close>

definition substr :: "string \<Rightarrow> nat \<Rightarrow> nat \<Rightarrow> error + string" where
  "substr s pos n =
     (if pos > length s then Inl OutOfRange else Inr (take n (drop pos s)))"

definition substr_from :: "string \<Rightarrow> nat \<Rightarrow> error + string" where
  "substr_from s pos = (if pos > length s then Inl OutOfRange else Inr (drop pos s))"

text \<open>Subtraction of two \<open>size_t\<close> values, which wraps around modulo \<open>2^64\<close>.\<close>

definition size_sub :: "nat \<Rightarrow> nat \<Rightarrow> nat" where
  "size_sub a b = (if b \<le> a then a - b else (a + 2 ^ 64 - b) mod 2 ^ 64)"

text \<open>
  Modelled from the spec: \<open>ad_utility::strip(text, chars)\<close> (util/StringUtils.h, not
  part of the sources at hand) removes the characters of \<open>chars\<close> from both ends of
  \<open>text\<close>; the spec speaks of the token being stripped from the argument.
\<close>

definition strip :: "string \<Rightarrow> string \<Rightarrow> string" where
  "strip text chars =
     rev (dropWhile (\<lambda>c. c \<in> set chars) (rev (dropWhile (\<lambda>c. c \<in> set chars) text)))"

definition space_tab :: string where
  "space_tab = [CHR '' '', CHR 0x09]"

definition quote_char :: char where
  "quote_char = CHR 0x22"

section \<open>Resolving an aggregate alias (GroupBy::computeResult, lines 781-895)\<close>

text \<open>Lines 784-802: the aggregate kind is found by prefix tests, in this order.\<close>

definition classify :: "string \<Rightarrow> AggregateType option" where
  "classify f =
     (if startsWith f ''COUNT'' then Some COUNT
      else if startsWith f ''GROUP_CONCAT'' then Some GROUP_CONCAT
      else if startsWith f ''SAMPLE'' then Some SAMPLE
      else if startsWith f ''MIN'' then Some MIN_agg
      else if startsWith f ''MAX'' then Some MAX_agg
      else if startsWith f ''SUM'' then Some SUM_agg
      else if startsWith f ''AVG'' then Some AVG
      else None)"

text \<open>
  Lines 809-810 and 857-858: \<open>varStop > varStart && varStop != npos && varStart != npos\<close>.
  Since \<open>npos\<close> is the largest \<open>size_t\<close>, the test holds exactly when both characters
  are found and the last closing bracket lies behind the first opening one.
\<close>

definition bracketsFound :: "nat option \<Rightarrow> nat option \<Rightarrow> bool" where
  "bracketsFound varStart varStop =
     (case (varStart, varStop) of (Some s, Some e) \<Rightarrow> e > s | _ \<Rightarrow> False)"

text \<open>Lines 814-819 and 859-864: the two spellings that set the distinct flag.\<close>

definition hasDistinct :: "string \<Rightarrow> bool" where
  "hasDistinct f = (find_str ''DISTINCT'' f \<noteq> None \<or> find_str ''distinct'' f \<noteq> None)"

text \<open>
  Lines 825-827, 847-849 and 867-869:
  \<open>inVarName = ad_utility::strip(inVarName, " \t").substr(8)\<close> when the flag is set.
\<close>

definition dropDistinct :: "bool \<Rightarrow> string \<Rightarrow> error + string" where
  "dropDistinct d inVarName =
     (if d then substr_from (strip inVarName space_tab) 8 else Inr inVarName)"

text \<open>
  The outcome of reading the argument list of one alias: the warnings logged, the distinct
  flag, the separator (\<open>_userData\<close>) and the name of the input variable before the final
  \<open>strip\<close> of line 872. A descriptor made by \<open>aggregates.emplace_back()\<close> is
  value-initialised: its flag is false and its pointer null until they are assigned.
\<close>

record ParsedArgs =
  pLog :: "LogMsg list"
  pDistinct :: bool
  pUserData :: "string option"
  pInVarName :: string

definition noArgs :: ParsedArgs where
  "noArgs = \<lparr>pLog = [], pDistinct = False, pUserData = None, pInVarName = []\<rparr>"

text \<open>Lines 828-842: the separator between the first and the last double quote.\<close>

definition parseSeparator :: "string \<Rightarrow> nat \<Rightarrow> nat \<Rightarrow> error + (LogMsg list \<times> string)" where
  "parseSeparator f delimitorPos varStop =
     (case substr f (delimitorPos + 1) (size_sub (size_sub varStop delimitorPos) 1) of
        Inl e \<Rightarrow> Inl e
      | Inr cs \<Rightarrow>
          (let concatString = strip cs '' '';
               startConcat = find_char quote_char concatString;
               stopConcat = rfind_char quote_char concatString
           in case (startConcat, stopConcat) of
                (Some s, Some e) \<Rightarrow>
                  (if e > s
                   then (case substr concatString (s + 1) (size_sub (size_sub e s) 1) of
                           Inl err \<Rightarrow> Inl err
                         | Inr sep \<Rightarrow> Inr ([], sep))
                   else Inr ([UnableToParseDelimiter f], '' ''))
              | _ \<Rightarrow> Inr ([UnableToParseDelimiter f], '' '')))"

text \<open>Lines 805-853: the argument list of a GROUP_CONCAT.\<close>

definition parseGroupConcatArgs :: "string \<Rightarrow> error + ParsedArgs" where
  "parseGroupConcatArgs f =
     (let varStart = find_char CHR ''('' f;
          varStop = rfind_char CHR '')'' f;
          delimitorPos = find_char CHR '';'' f
      in if bracketsFound varStart varStop
         then (let d = hasDistinct f; vs = the varStart; ve = the varStop
               in case delimitorPos of
                    Some dp \<Rightarrow>
                      (case substr f (vs + 1) (size_sub (size_sub dp vs) 1) of
                         Inl e \<Rightarrow> Inl e
                       | Inr v \<Rightarrow>
                          (case dropDistinct d v of
                             Inl e \<Rightarrow> Inl e
                           | Inr v' \<Rightarrow>
                              (case parseSeparator f dp ve of
                                 Inl e \<Rightarrow> Inl e
                               | Inr (lg, sep) \<Rightarrow>
                                   Inr \<lparr>pLog = lg, pDistinct = d, pUserData = Some sep,
                                        pInVarName = v'\<rparr>)))
                  | None \<Rightarrow>
                      (case substr f (vs + 1) (size_sub (size_sub ve vs) 1) of
                         Inl e \<Rightarrow> Inl e
                       | Inr v \<Rightarrow>
                          (case dropDistinct d v of
                             Inl e \<Rightarrow> Inl e
                           | Inr v' \<Rightarrow>
                               Inr \<lparr>pLog = [], pDistinct = d, pUserData = Some '' '',
                                    pInVarName = v'\<rparr>)))
         else Inr noArgs)"

text \<open>Lines 855-870: the argument list of every other aggregate.\<close>

definition parsePlainArgs :: "string \<Rightarrow> error + ParsedArgs" where
  "parsePlainArgs f =
     (let varStart = find_char CHR ''('' f;
          varStop = rfind_char CHR '')'' f
      in if bracketsFound varStart varStop
         then (let d = hasDistinct f; vs = the varStart; ve = the varStop
               in case substr f (vs + 1) (size_sub (size_sub ve vs) 1) of
                    Inl e \<Rightarrow> Inl e
                  | Inr v \<Rightarrow>
                     (case dropDistinct d v of
                        Inl e \<Rightarrow> Inl e
                      | Inr v' \<Rightarrow>
                          Inr \<lparr>pLog = [], pDistinct = d, pUserData = None, pInVarName = v'\<rparr>))
         else Inr noArgs)"

definition parseArgs :: "AggregateType \<Rightarrow> string \<Rightarrow> error + ParsedArgs" where
  "parseArgs t f = (if t = GROUP_CONCAT then parseGroupConcatArgs f else parsePlainArgs f)"

text \<open>
  The text of the argument that lines 823-824, 845-846 and 865-866 cut out of the
  function text when the brackets are found: it starts behind the first opening bracket
  and ends before the first semicolon of a GROUP_CONCAT that has one, and before the last
  closing bracket otherwise. The start position lies inside the text, so \<open>substr\<close> does
  not throw here.
\<close>

definition argumentText :: "AggregateType \<Rightarrow> string \<Rightarrow> string" where
  "argumentText t f =
     (let vs = the (find_char CHR ''('' f); ve = the (rfind_char CHR '')'' f)
      in case (if t = GROUP_CONCAT then find_char CHR '';'' f else None) of
           Some dp \<Rightarrow> take (size_sub (size_sub dp vs) 1) (drop (vs + 1) f)
         | None \<Rightarrow> take (size_sub (size_sub ve vs) 1) (drop (vs + 1) f))"

section \<open>The collaborators of the aggregate kernels\<close>

text \<open>
  The kernels of \<open>processGroup\<close> compute with C++ \<open>float\<close> values and call the index,
  the conversion helpers of util/Conversions.h and \<open>ResultTable::idToString\<close>, none of
  which is part of the sources at hand. They are parameters of the model, collected in
  one record; \<open>'f\<close> is the type of \<open>float\<close> values. Every theorem below holds for any
  choice of them.
  \<^item> \<open>fzero\<close> is the literal \<open>0\<close>, \<open>fnan\<close> is \<open>std::numeric_limits<float>::quiet_NaN()\<close>,
    \<open>flowest\<close> and \<open>fhighest\<close> are \<open>lowest()\<close> and \<open>max()\<close>;
  \<^item> \<open>fadd\<close>, \<open>fdiv\<close>, \<open>fless\<close> are \<open>+\<close>, \<open>/\<close> and \<open><\<close> on \<open>float\<close>;
  \<^item> \<open>ofU64\<close> is the implicit conversion of an unsigned 64-bit integer to \<open>float\<close>;
  \<^item> \<open>ofBits\<close> and \<open>toBits\<close> read and write the four bytes of a \<open>float\<close>;
  \<^item> \<open>showFloat\<close> is \<open>operator<<\<close> of an output stream on a \<open>float\<close>;
  \<^item> \<open>tableIdToString\<close> is \<open>ResultTable::idToString\<close>, given the table's \<open>_localVocab\<close>,
    and \<open>getResultType\<close> is \<open>ResultTable::getResultType\<close>, given its \<open>_resultTypes\<close>.
\<close>

record 'f Env =
  fzero :: 'f
  fnan :: 'f
  flowest :: 'f
  fhighest :: 'f
  fadd :: "'f \<Rightarrow> 'f \<Rightarrow> 'f"
  fdiv :: "'f \<Rightarrow> 'f \<Rightarrow> 'f"
  fless :: "'f \<Rightarrow> 'f \<Rightarrow> bool"
  ofU64 :: "Id \<Rightarrow> 'f"
  ofBits :: "32 word \<Rightarrow> 'f"
  toBits :: "'f \<Rightarrow> 32 word"
  showFloat :: "'f \<Rightarrow> string"
  idToString :: "Id \<Rightarrow> string"
  getTextExcerpt :: "Id \<Rightarrow> string"
  VALUE_PREFIX :: string
  VALUE_FLOAT_PREFIX :: string
  convertIndexWordToFloatValue :: "string \<Rightarrow> 'f"
  convertIndexWordToValueLiteral :: "string \<Rightarrow> string"
  ID_NO_VALUE :: Id
  tableIdToString :: "string list \<Rightarrow> Id \<Rightarrow> string"
  getResultType :: "ResultType list \<Rightarrow> nat \<Rightarrow> ResultType"

text \<open>
  \<open>*reinterpret_cast<const float*>(&id)\<close> and \<open>memcpy(&f, &id, sizeof(float))\<close> read the
  low four bytes of the Id; the kernels write a float by zeroing the cell and storing
  the float into its low four bytes.
\<close>

definition asFloat :: "'f Env \<Rightarrow> Id \<Rightarrow> 'f" where
  "asFloat E v = ofBits E (ucast v)"

definition floatId :: "'f Env \<Rightarrow> 'f \<Rightarrow> Id" where
  "floatId E x = ucast (toBits E x)"

text \<open>\<open>operator<<\<close> of an output stream on an unsigned integer: its decimal digits.\<close>

fun showNat :: "nat \<Rightarrow> string" where
  "showNat n =
     (if n < 10 then [char_of (48 + n)]
      else showNat (n div 10) @ [char_of (48 + n mod 10)])"

declare showNat.simps [simp del]

section \<open>Reading and writing cells\<close>

definition cell :: "Id list list \<Rightarrow> nat \<Rightarrow> nat \<Rightarrow> error + Id" where
  "cell input i c =
     (if i < length input \<and> c < length (input ! i) then Inr (input ! i ! c)
      else Inl OutOfBounds)"

definition setCell :: "Id list \<Rightarrow> nat \<Rightarrow> Id \<Rightarrow> error + Id list" where
  "setCell row c v = (if c < length row then Inr (row[c := v]) else Inl OutOfBounds)"

text \<open>\<open>blockEnd - blockStart + 1\<close>, computed in \<open>size_t\<close>.\<close>

definition runLength :: "nat \<Rightarrow> nat \<Rightarrow> Id" where
  "runLength blockStart blockEnd = word_of_nat blockEnd - word_of_nat blockStart + 1"

section \<open>The kernels of processGroup (lines 150-521)\<close>

subsection \<open>SUM and AVG: lines 165-228 and 442-505\<close>

text \<open>
  The six accumulation loops of AVG and the six of SUM are the same text up to the
  expression that is added. \<open>accumulate\<close> is that loop over the rows \<open>is\<close>: \<open>dec\<close> yields
  the summand of a value, or \<open>None\<close> where the source assigns NaN and leaves the loop
  (\<open>break\<close>); with \<open>d\<close> set, a value already in the hash set is skipped and a new one is
  inserted before it is decoded.
\<close>

fun accumulate ::
  "'f Env \<Rightarrow> (Id \<Rightarrow> 'f option) \<Rightarrow> bool \<Rightarrow> Id list list \<Rightarrow> nat \<Rightarrow> nat list \<Rightarrow> 'f \<Rightarrow> Id set
     \<Rightarrow> error + ('f \<times> Id set)" where
  "accumulate E dec d input col [] res hs = Inr (res, hs)"
| "accumulate E dec d input col (i # is) res hs =
     (case cell input i col of
        Inl e \<Rightarrow> Inl e
      | Inr v \<Rightarrow>
          (if d \<and> v \<in> hs then accumulate E dec d input col is res hs
           else (case dec v of
                   None \<Rightarrow> Inr (fnan E, if d then insert v hs else hs)
                 | Some x \<Rightarrow>
                     accumulate E dec d input col is (fadd E res x)
                       (if d then insert v hs else hs))))"

definition decVerbatim :: "'f Env \<Rightarrow> Id \<Rightarrow> 'f option" where
  "decVerbatim E v = Some (ofU64 E v)"

definition decFloat :: "'f Env \<Rightarrow> Id \<Rightarrow> 'f option" where
  "decFloat E v = Some (asFloat E v)"

text \<open>
  Lines 206-212: \<open>entity.substr(0, entity.size() - 1)\<close> starts at position 0 and so
  cannot throw; the count wraps around for the empty string.
\<close>

definition decKB :: "'f Env \<Rightarrow> Id \<Rightarrow> 'f option" where
  "decKB E v =
     (let entity = idToString E v
      in if \<not> startsWith entity (VALUE_FLOAT_PREFIX E) then None
         else Some (convertIndexWordToFloatValue E
                      (take (size_sub (length entity) 1) entity)))"

text \<open>
  The value of \<open>res\<close> behind the chain of type tests, with the hash set as the kernel
  leaves it: every distinct branch ends with \<open>distinctHashSet.clear()\<close>.
\<close>

definition accumulated ::
  "'f Env \<Rightarrow> Aggregate \<Rightarrow> nat \<Rightarrow> nat \<Rightarrow> Id list list \<Rightarrow> ResultType list \<Rightarrow> Id set
     \<Rightarrow> error + ('f \<times> Id set)" where
  "accumulated E a blockStart blockEnd input inputTypes hs =
     (if inCol a \<ge> length inputTypes then Inl OutOfBounds
      else
        (let t = inputTypes ! inCol a;
             loop = (\<lambda>dec.
               case accumulate E dec (isDistinct a) input (inCol a)
                      [blockStart..<Suc blockEnd] (fzero E) hs of
                 Inl e \<Rightarrow> Inl e
               | Inr (res, hs') \<Rightarrow> Inr (res, if isDistinct a then {} else hs'))
         in if t = VERBATIM then loop (decVerbatim E)
            else if t = FLOAT then loop (decFloat E)
            else if t = TEXT \<or> t = STRING then Inr (fnan E, hs)
            else loop (decKB E)))"

subsection \<open>COUNT: lines 235-250\<close>

fun countDistinct ::
  "Id list list \<Rightarrow> nat \<Rightarrow> nat list \<Rightarrow> Id \<Rightarrow> Id set \<Rightarrow> error + (Id \<times> Id set)" where
  "countDistinct input col [] n hs = Inr (n, hs)"
| "countDistinct input col (i # is) n hs =
     (case cell input i col of
        Inl e \<Rightarrow> Inl e
      | Inr v \<Rightarrow>
          (if v \<in> hs then countDistinct input col is n hs
           else countDistinct input col is (n + 1) (insert v hs)))"

subsection \<open>GROUP_CONCAT: lines 251-383\<close>

text \<open>
  The ten loops \<open>for (i = blockStart; i + 1 <= blockEnd; i++)\<close> differ in the text that
  is written for a value (\<open>dec\<close>) and in the distinct test. Each of them writes the
  separator \<open>*delim\<close> behind every value it writes.
\<close>

fun concatLoop ::
  "(Id \<Rightarrow> string) \<Rightarrow> bool \<Rightarrow> string option \<Rightarrow> Id list list \<Rightarrow> nat \<Rightarrow> nat list \<Rightarrow> string
     \<Rightarrow> Id set \<Rightarrow> error + (string \<times> Id set)" where
  "concatLoop dec d delim input col [] out hs = Inr (out, hs)"
| "concatLoop dec d delim input col (i # is) out hs =
     (case cell input i col of
        Inl e \<Rightarrow> Inl e
      | Inr v \<Rightarrow>
          (if d \<and> v \<in> hs then concatLoop dec d delim input col is out hs
           else (case delim of
                   None \<Rightarrow> Inl NullDeref
                 | Some dl \<Rightarrow>
                     concatLoop dec d delim input col is (out @ dec v @ dl)
                       (if d then insert v hs else hs))))"

definition decimalText :: "Id \<Rightarrow> string" where
  "decimalText v = showNat (unat v)"

definition kbText :: "'f Env \<Rightarrow> Id \<Rightarrow> string" where
  "kbText E v =
     (let entity = idToString E v
      in if startsWith entity (VALUE_PREFIX E) then convertIndexWordToValueLiteral E entity
         else entity)"

definition concatText :: "'f Env \<Rightarrow> string list \<Rightarrow> ResultType \<Rightarrow> Id \<Rightarrow> string" where
  "concatText E inVocab t =
     (if t = VERBATIM then decimalText
      else if t = FLOAT then (\<lambda>v. showFloat E (asFloat E v))
      else if t = TEXT then getTextExcerpt E
      else if t = STRING then tableIdToString E inVocab
      else kbText E)"

text \<open>
  The string \<open>out.str()\<close> and the hash set behind the branches of lines 254-379. The row
  \<open>blockEnd\<close> is handled behind the loop. In the distinct branches it is written only
  when its value is not in the hash set; the VERBATIM branch (line 265) then also writes
  the separator, the other four (lines 288, 310, 330, 357-359) do not.
\<close>

definition groupConcat ::
  "'f Env \<Rightarrow> Aggregate \<Rightarrow> nat \<Rightarrow> nat \<Rightarrow> Id list list \<Rightarrow> ResultType list \<Rightarrow> string list
     \<Rightarrow> Id set \<Rightarrow> error + (string \<times> Id set)" where
  "groupConcat E a blockStart blockEnd input inputTypes inVocab hs =
     (if inCol a \<ge> length inputTypes then Inl OutOfBounds
      else
        (let t = inputTypes ! inCol a; dec = concatText E inVocab t
         in case concatLoop dec (isDistinct a) (userData a) input (inCol a)
                   [blockStart..<blockEnd] [] hs of
              Inl e \<Rightarrow> Inl e
            | Inr (out, hs') \<Rightarrow>
                (case cell input blockEnd (inCol a) of
                   Inl e \<Rightarrow> Inl e
                 | Inr v \<Rightarrow>
                     (if isDistinct a
                      then (if v \<notin> hs'
                            then (if t = VERBATIM
                                  then (case userData a of
                                          None \<Rightarrow> Inl NullDeref
                                        | Some dl \<Rightarrow> Inr (out @ dec v @ dl, {}))
                                  else Inr (out @ dec v, {}))
                            else Inr (out, {}))
                      else Inr (out @ dec v, hs')))))"

subsection \<open>MIN and MAX: lines 384-437\<close>

fun scanIds ::
  "(Id \<Rightarrow> 'a \<Rightarrow> 'a) \<Rightarrow> Id list list \<Rightarrow> nat \<Rightarrow> nat list \<Rightarrow> 'a \<Rightarrow> error + 'a" where
  "scanIds step input col [] res = Inr res"
| "scanIds step input col (i # is) res =
     (case cell input i col of
        Inl e \<Rightarrow> Inl e
      | Inr v \<Rightarrow> scanIds step input col is (step v res))"

text \<open>\<open>std::max(a, b)\<close> is \<open>(a < b) ? b : a\<close> and \<open>std::min(a, b)\<close> is \<open>(b < a) ? b : a\<close>.\<close>

definition std_max :: "('a \<Rightarrow> 'a \<Rightarrow> bool) \<Rightarrow> 'a \<Rightarrow> 'a \<Rightarrow> 'a" where
  "std_max lt a b = (if lt a b then b else a)"

definition std_min :: "('a \<Rightarrow> 'a \<Rightarrow> bool) \<Rightarrow> 'a \<Rightarrow> 'a \<Rightarrow> 'a" where
  "std_min lt a b = (if lt b a then b else a)"

definition extremum ::
  "'f Env \<Rightarrow> bool \<Rightarrow> Aggregate \<Rightarrow> nat \<Rightarrow> nat \<Rightarrow> Id list list \<Rightarrow> ResultType list
     \<Rightarrow> error + Id" where
  "extremum E isMax a blockStart blockEnd input inputTypes =
     (if inCol a \<ge> length inputTypes then Inl OutOfBounds
      else
        (let t = inputTypes ! inCol a;
             rows = [blockStart..<Suc blockEnd];
             ids = scanIds (\<lambda>v res. if isMax then std_max (<) res v else std_min (<) res v)
                     input (inCol a) rows (if isMax then 0 else - 1);
             floats = scanIds
                     (\<lambda>v res. if isMax then std_max (fless E) res (asFloat E v)
                               else std_min (fless E) res (asFloat E v))
                     input (inCol a) rows (if isMax then flowest E else fhighest E)
         in if t = VERBATIM then ids
            else if t = FLOAT
            then (case floats of Inl e \<Rightarrow> Inl e | Inr res \<Rightarrow> Inr (floatId E res))
            else if t = TEXT \<or> t = STRING then Inr (ID_NO_VALUE E)
            else ids))"

subsection \<open>processGroup\<close>

text \<open>
  One call of \<open>processGroup\<close> writes one cell of \<open>resultRow\<close>; a GROUP_CONCAT also appends
  to the \<open>_localVocab\<close> of \<open>outTable\<close>. The function returns the row, that vocabulary and
  the hash set. The \<open>resize\<close> of the hash set at lines 159-162 changes its capacity, not
  its elements. \<open>inVocab\<close> is the \<open>_localVocab\<close> of \<open>inTable\<close>.
\<close>

definition processGroup ::
  "'f Env \<Rightarrow> Aggregate \<Rightarrow> nat \<Rightarrow> nat \<Rightarrow> Id list list \<Rightarrow> ResultType list \<Rightarrow> Id list
     \<Rightarrow> string list \<Rightarrow> string list \<Rightarrow> Id set
     \<Rightarrow> error + (Id list \<times> string list \<times> Id set)" where
  "processGroup E a blockStart blockEnd input inputTypes resultRow inVocab outVocab hs =
     (let put = (\<lambda>v hs'.
            case setCell resultRow (outCol a) v of
              Inl e \<Rightarrow> Inl e
            | Inr row \<Rightarrow> Inr (row, outVocab, hs'));
          copy = (\<lambda>i.
            case cell input i (inCol a) of Inl e \<Rightarrow> Inl e | Inr v \<Rightarrow> put v hs)
      in case aggType a of
           AVG \<Rightarrow>
             (case accumulated E a blockStart blockEnd input inputTypes hs of
                Inl e \<Rightarrow> Inl e
              | Inr (res, hs') \<Rightarrow>
                  put (floatId E (fdiv E res (ofU64 E (runLength blockStart blockEnd)))) hs')
         | COUNT \<Rightarrow>
             (if isDistinct a
              then (case countDistinct input (inCol a) [blockStart..<Suc blockEnd] 0 hs of
                      Inl e \<Rightarrow> Inl e
                    | Inr (n, hs') \<Rightarrow> put n {})
              else put (runLength blockStart blockEnd) hs)
         | GROUP_CONCAT \<Rightarrow>
             (case groupConcat E a blockStart blockEnd input inputTypes inVocab hs of
                Inl e \<Rightarrow> Inl e
              | Inr (out, hs') \<Rightarrow>
                  (case setCell resultRow (outCol a) (word_of_nat (length outVocab)) of
                     Inl e \<Rightarrow> Inl e
                   | Inr row \<Rightarrow> Inr (row, outVocab @ [out], hs')))
         | MAX_agg \<Rightarrow>
             (case extremum E True a blockStart blockEnd input inputTypes of
                Inl e \<Rightarrow> Inl e
              | Inr v \<Rightarrow> put v hs)
         | MIN_agg \<Rightarrow>
             (case extremum E False a blockStart blockEnd input inputTypes of
                Inl e \<Rightarrow> Inl e
              | Inr v \<Rightarrow> put v hs)
         | SAMPLE \<Rightarrow> copy blockEnd
         | SUM_agg \<Rightarrow>
             (case accumulated E a blockStart blockEnd input inputTypes hs of
                Inl e \<Rightarrow> Inl e
              | Inr (res, hs') \<Rightarrow> put (floatId E res) hs')
         | FIRST \<Rightarrow> copy blockStart
         | LAST \<Rightarrow> copy blockEnd)"

section \<open>doGroupBy (lines 523-600)\<close>

text \<open>The loop \<open>for (const GroupBy::Aggregate &a : aggregates)\<close> around \<open>processGroup\<close>.\<close>

fun processAggregates ::
  "'f Env \<Rightarrow> Aggregate list \<Rightarrow> nat \<Rightarrow> nat \<Rightarrow> Id list list \<Rightarrow> ResultType list \<Rightarrow> Id list
     \<Rightarrow> string list \<Rightarrow> string list \<Rightarrow> Id set
     \<Rightarrow> error + (Id list \<times> string list \<times> Id set)" where
  "processAggregates E [] blockStart blockEnd input inputTypes resultRow inVocab outVocab hs =
     Inr (resultRow, outVocab, hs)"
| "processAggregates E (a # as) blockStart blockEnd input inputTypes resultRow inVocab outVocab hs =
     (case processGroup E a blockStart blockEnd input inputTypes resultRow inVocab outVocab hs of
        Inl e \<Rightarrow> Inl e
      | Inr (row, vocab, hs') \<Rightarrow>
          processAggregates E as blockStart blockEnd input inputTypes row inVocab vocab hs')"

text \<open>
  \<open>result->emplace_back()\<close> followed by \<open>resizeIfVec\<close>: a row type \<open>array<Id, k>\<close>
  (\<open>Some k\<close>) has its width fixed and \<open>resize\<close> does nothing, a \<open>vector<Id>\<close> (\<open>None\<close>)
  is resized to the requested width. In both cases the cells are zero.
\<close>

definition newRow :: "nat option \<Rightarrow> nat \<Rightarrow> Id list" where
  "newRow fixedWidth requested =
     replicate (case fixedWidth of Some k \<Rightarrow> k | None \<Rightarrow> requested) 0"

text \<open>Lines 561-567 and 582-584: comparing a row with the current key, and refreshing it.\<close>

fun rowMatchesCurrentBlock ::
  "Id list list \<Rightarrow> nat \<Rightarrow> (nat \<times> Id) list \<Rightarrow> error + bool" where
  "rowMatchesCurrentBlock input pos [] = Inr True"
| "rowMatchesCurrentBlock input pos ((c, v) # rest) =
     (case cell input pos c of
        Inl e \<Rightarrow> Inl e
      | Inr x \<Rightarrow> (if x \<noteq> v then Inr False else rowMatchesCurrentBlock input pos rest))"

fun readGroupBlock :: "Id list list \<Rightarrow> nat \<Rightarrow> nat list \<Rightarrow> error + (nat \<times> Id) list" where
  "readGroupBlock input pos [] = Inr []"
| "readGroupBlock input pos (c # cs) =
     (case cell input pos c of
        Inl e \<Rightarrow> Inl e
      | Inr v \<Rightarrow>
          (case readGroupBlock input pos cs of
             Inl e \<Rightarrow> Inl e
           | Inr rest \<Rightarrow> Inr ((c, v) # rest)))"

record GroupState =
  gResult :: "Id list list"
  gVocab :: "string list"
  gHashSet :: "Id set"
  gBlockStart :: nat
  gCurrentGroupBlock :: "(nat \<times> Id) list"

text \<open>The loop of lines 560-586 over the positions \<open>pos\<close>.\<close>

fun groupLoop ::
  "'f Env \<Rightarrow> Id list list \<Rightarrow> ResultType list \<Rightarrow> nat list \<Rightarrow> Aggregate list \<Rightarrow> nat option
     \<Rightarrow> string list \<Rightarrow> nat list \<Rightarrow> GroupState \<Rightarrow> error + GroupState" where
  "groupLoop E input inputTypes groupByCols aggregates fixedWidth inVocab [] st = Inr st"
| "groupLoop E input inputTypes groupByCols aggregates fixedWidth inVocab (pos # ps) st =
     (case rowMatchesCurrentBlock input pos (gCurrentGroupBlock st) of
        Inl e \<Rightarrow> Inl e
      | Inr True \<Rightarrow>
          groupLoop E input inputTypes groupByCols aggregates fixedWidth inVocab ps st
      | Inr False \<Rightarrow>
          (case processAggregates E aggregates (gBlockStart st) (pos - 1) input inputTypes
                  (newRow fixedWidth (length groupByCols + length aggregates))
                  inVocab (gVocab st) (gHashSet st) of
             Inl e \<Rightarrow> Inl e
           | Inr (row, vocab, hs) \<Rightarrow>
               (case readGroupBlock input pos (map fst (gCurrentGroupBlock st)) of
                  Inl e \<Rightarrow> Inl e
                | Inr block \<Rightarrow>
                    groupLoop E input inputTypes groupByCols aggregates fixedWidth inVocab ps
                      \<lparr>gResult = gResult st @ [row], gVocab = vocab, gHashSet = hs,
                       gBlockStart = pos, gCurrentGroupBlock = block\<rparr>)))"

text \<open>
  \<open>doGroupBy\<close> appends to the rows \<open>result\<close> and to the \<open>_localVocab\<close> of \<open>outTable\<close> and
  returns both. With an empty list of group-by columns, lines 537-551 set
  \<open>blockStart = 0\<close> and \<open>blockEnd = input->size()\<close>.
\<close>

definition doGroupBy ::
  "'f Env \<Rightarrow> Id list list \<Rightarrow> ResultType list \<Rightarrow> nat list \<Rightarrow> Aggregate list \<Rightarrow> nat option
     \<Rightarrow> Id list list \<Rightarrow> string list \<Rightarrow> string list
     \<Rightarrow> error + (Id list list \<times> string list)" where
  "doGroupBy E input inputTypes groupByCols aggregates fixedWidth result inVocab outVocab =
     (if length input = 0 then Inr (result, outVocab)
      else if groupByCols = []
      then (let blockStart = 0; blockEnd = length input
            in case processAggregates E aggregates blockStart blockEnd input inputTypes
                      (newRow fixedWidth (length aggregates)) inVocab outVocab {} of
                 Inl e \<Rightarrow> Inl e
               | Inr (row, vocab, hs) \<Rightarrow> Inr (result @ [row], vocab))
      else
        (case readGroupBlock input 0 groupByCols of
           Inl e \<Rightarrow> Inl e
         | Inr block \<Rightarrow>
             (case groupLoop E input inputTypes groupByCols aggregates fixedWidth inVocab
                     [1..<length input]
                     \<lparr>gResult = result, gVocab = outVocab, gHashSet = {}, gBlockStart = 0,
                      gCurrentGroupBlock = block\<rparr> of
                Inl e \<Rightarrow> Inl e
              | Inr st \<Rightarrow>
                  (case processAggregates E aggregates (gBlockStart st) (length input - 1)
                          input inputTypes
                          (newRow fixedWidth (length groupByCols + length aggregates))
                          inVocab (gVocab st) (gHashSet st) of
                     Inl e \<Rightarrow> Inl e
                   | Inr (row, vocab, hs) \<Rightarrow> Inr (gResult st @ [row], vocab)))))"

section \<open>The GroupBy operation\<close>

text \<open>
  The members \<open>_groupByVariables\<close>, \<open>_aliases\<close> and \<open>_varColMap\<close> of a \<open>GroupBy\<close>. The map
  is kept as an association list with one entry for each key, so that its \<open>size()\<close> is
  the length of the list.
\<close>

record GroupBy =
  groupByVariables :: "string list"
  aliases :: "Alias list"
  varColMap :: "(string \<times> nat) list"

text \<open>Lines 34-42: \<open>_varColMap[name] = colIndex; colIndex++\<close> for each name.\<close>

fun assignColumns ::
  "string list \<Rightarrow> nat \<Rightarrow> (string \<times> nat) list \<Rightarrow> (string \<times> nat) list \<times> nat" where
  "assignColumns [] colIndex m = (m, colIndex)"
| "assignColumns (v # vs) colIndex m = assignColumns vs (Suc colIndex) (AList.update v colIndex m)"

text \<open>
  The constructor, lines 11-43. \<open>std::sort\<close> of the group-by variables orders strings
  with \<open>operator<\<close>, the lexicographic order of their bytes. \<open>std::sort\<close> of the aliases
  compares the output variable names only and leaves the order of aliases with equal
  names unspecified, so the sorting of aliases is a parameter \<open>sortAliases\<close>; what
  \<open>std::sort\<close> guarantees of it is \<open>sortsByOutVarName\<close>.
\<close>

definition sortsByOutVarName :: "(Alias list \<Rightarrow> Alias list) \<Rightarrow> bool" where
  "sortsByOutVarName sortAliases =
     (\<forall>xs. mset (sortAliases xs) = mset xs \<and> sorted (map outVarName (sortAliases xs)))"

definition GroupBy_ctor ::
  "(Alias list \<Rightarrow> Alias list) \<Rightarrow> string list \<Rightarrow> Alias list \<Rightarrow> GroupBy" where
  "GroupBy_ctor sortAliases groupByVars als =
     (let sortedAliases = sortAliases (filter isAggregate als);
          sortedVars = sort groupByVars;
          (m1, colIndex1) = assignColumns sortedVars 0 [];
          (m2, colIndex2) = assignColumns (map outVarName sortedAliases) colIndex1 m1
      in \<lparr>groupByVariables = sortedVars, aliases = sortedAliases, varColMap = m2\<rparr>)"

definition getResultWidth :: "GroupBy \<Rightarrow> nat" where
  "getResultWidth g = length (varColMap g)"

definition resultSortedOn :: nat where
  "resultSortedOn = 0"

section \<open>GroupBy::computeResult (lines 739-953)\<close>

text \<open>
  The members of a \<open>ResultTable\<close> that GroupBy.cpp reads and writes. \<open>rows\<close> stands for
  the table's data, which the source keeps in \<open>_fixedSizeData\<close> for up to five columns
  and in \<open>_varSizeData\<close> otherwise; \<open>finished\<close> is set by \<open>finish()\<close>.
\<close>

record ResultTable =
  nofColumns :: nat
  sortedBy :: nat
  resultTypes :: "ResultType list"
  rows :: "Id list list"
  localVocab :: "string list"
  finished :: bool

text \<open>
  Lines 755-767 and 877-889, the exit taken when a variable is missing: for one to five
  columns \<open>_fixedSizeData\<close> becomes a new empty vector, otherwise the data is left as it
  is; then \<open>finish()\<close>.
\<close>

definition finishEmpty :: "ResultTable \<Rightarrow> ResultTable" where
  "finishEmpty r =
     (if 1 \<le> nofColumns r \<and> nofColumns r \<le> 5 then r\<lparr>rows := [], finished := True\<rparr>
      else r\<lparr>finished := True\<rparr>)"

text \<open>
  Lines 750-778. The result is the log together with \<open>None\<close> when the warning exit was
  taken, and with the group-by columns and the pass-through aggregates otherwise.
\<close>

fun resolveGroupByVariables ::
  "GroupBy \<Rightarrow> (string \<rightharpoonup> nat) \<Rightarrow> string list \<Rightarrow> nat list \<Rightarrow> Aggregate list
     \<Rightarrow> error + (LogMsg list \<times> (nat list \<times> Aggregate list) option)" where
  "resolveGroupByVariables g subtreeVarCols [] groupByColumns aggregates =
     Inr ([], Some (groupByColumns, aggregates))"
| "resolveGroupByVariables g subtreeVarCols (var # vars) groupByColumns aggregates =
     (case subtreeVarCols var of
        None \<Rightarrow> Inr ([GroupByVariableNotPartOfQuery var], None)
      | Some c \<Rightarrow>
          (case map_of (varColMap g) var of
             None \<Rightarrow> Inl EndIterator
           | Some oc \<Rightarrow>
               resolveGroupByVariables g subtreeVarCols vars (groupByColumns @ [c])
                 (aggregates @
                    [\<lparr>aggType = SAMPLE, inCol = c, outCol = oc, userData = None,
                      isDistinct = False\<rparr>])))"

text \<open>
  Lines 781-895, the loop over \<open>_aliases\<close>, with the warnings logged so far and the
  aggregates resolved so far.
\<close>

fun resolveAliases ::
  "GroupBy \<Rightarrow> (string \<rightharpoonup> nat) \<Rightarrow> Alias list \<Rightarrow> LogMsg list \<Rightarrow> Aggregate list
     \<Rightarrow> error + (LogMsg list \<times> Aggregate list option)" where
  "resolveAliases g subtreeVarCols [] lg aggregates = Inr (lg, Some aggregates)"
| "resolveAliases g subtreeVarCols (alias # rest) lg aggregates =
     (if \<not> isAggregate alias then resolveAliases g subtreeVarCols rest lg aggregates
      else
        (case classify (func alias) of
           None \<Rightarrow>
             resolveAliases g subtreeVarCols rest (lg @ [UnknownAggregate (func alias)])
               aggregates
         | Some t \<Rightarrow>
             (case parseArgs t (func alias) of
                Inl e \<Rightarrow> Inl e
              | Inr p \<Rightarrow>
                  (let inVarName = strip (pInVarName p) space_tab
                   in case subtreeVarCols inVarName of
                        None \<Rightarrow>
                          Inr (lg @ pLog p @ [AliasRefersToMissingColumn (func alias)], None)
                      | Some c \<Rightarrow>
                          (case map_of (varColMap g) (outVarName alias) of
                             None \<Rightarrow> Inl EndIterator
                           | Some oc \<Rightarrow>
                               resolveAliases g subtreeVarCols rest (lg @ pLog p)
                                 (aggregates @
                                    [\<lparr>aggType = t, inCol = c, outCol = oc,
                                      userData = pUserData p,
                                      isDistinct = pDistinct p\<rparr>]))))))"

text \<open>
  What one pass of that loop makes of an alias before the lookup of line 873: \<open>None\<close>
  when the alias is passed over (it is no aggregate, or its kind is unknown), the
  exception when reading its argument list throws, and otherwise the name that is looked
  up in the variables of the subtree, the argument variable of the alias.
\<close>

definition argumentVariable :: "Alias \<Rightarrow> (error + string) option" where
  "argumentVariable a =
     (if \<not> isAggregate a then None
      else (case classify (func a) of
              None \<Rightarrow> None
            | Some t \<Rightarrow>
                (case parseArgs t (func a) of
                   Inl e \<Rightarrow> Some (Inl e)
                 | Inr p \<Rightarrow> Some (Inr (strip (pInVarName p) space_tab)))))"

text \<open>Lines 900-927: the result type of column \<open>i\<close> is read off \<open>aggregates[i]\<close>.\<close>

definition outputType :: "'f Env \<Rightarrow> ResultTable \<Rightarrow> Aggregate \<Rightarrow> ResultType" where
  "outputType E subresult a =
     (case aggType a of
        AVG \<Rightarrow> FLOAT
      | COUNT \<Rightarrow> VERBATIM
      | GROUP_CONCAT \<Rightarrow> STRING
      | MAX_agg \<Rightarrow> getResultType E (resultTypes subresult) (inCol a)
      | MIN_agg \<Rightarrow> getResultType E (resultTypes subresult) (inCol a)
      | SAMPLE \<Rightarrow> getResultType E (resultTypes subresult) (inCol a)
      | SUM_agg \<Rightarrow> FLOAT
      | _ \<Rightarrow> KB)"

fun outputTypes ::
  "'f Env \<Rightarrow> ResultTable \<Rightarrow> Aggregate list \<Rightarrow> nat list \<Rightarrow> error + ResultType list" where
  "outputTypes E subresult aggregates [] = Inr []"
| "outputTypes E subresult aggregates (i # is) =
     (if i < length aggregates
      then (case outputTypes E subresult aggregates is of
              Inl e \<Rightarrow> Inl e
            | Inr ts \<Rightarrow> Inr (outputType E subresult (aggregates ! i) # ts))
      else Inl OutOfBounds)"

text \<open>
  \<open>callDoGroupBy<1, 1>::call\<close> (lines 607-737) selects the row type of the result: an
  array of \<open>resultColCount\<close> cells for one to five columns, a vector otherwise. The rows
  go to a new \<open>_fixedSizeData\<close> in the first case and are appended to \<open>_varSizeData\<close> in
  the second.
\<close>

definition fixedWidthOf :: "nat \<Rightarrow> nat option" where
  "fixedWidthOf resultColCount =
     (if 1 \<le> resultColCount \<and> resultColCount \<le> 5 then Some resultColCount else None)"

text \<open>
  \<open>computeResult\<close> fills the table \<open>result\<close> it is handed; \<open>subtreeVarCols\<close> and
  \<open>subresult\<close> are what \<open>_subtree->getVariableColumnMap()\<close> and \<open>_subtree->getResult()\<close>
  return. The function returns the table and the warnings logged. Lines 929-933 look
  the group-by variables up a second time; all of them were found by then, so
  \<open>groupByCols\<close> is \<open>groupByColumns\<close> again. The input rows are \<open>rows subresult\<close> whichever of
  the two containers the source reads them from.
\<close>

definition computeResult ::
  "'f Env \<Rightarrow> GroupBy \<Rightarrow> (string \<rightharpoonup> nat) \<Rightarrow> ResultTable \<Rightarrow> ResultTable
     \<Rightarrow> error + (ResultTable \<times> LogMsg list)" where
  "computeResult E g subtreeVarCols subresult result0 =
     (let result = result0\<lparr>sortedBy := resultSortedOn, nofColumns := getResultWidth g\<rparr>
      in case resolveGroupByVariables g subtreeVarCols (groupByVariables g) [] [] of
           Inl e \<Rightarrow> Inl e
         | Inr (lg, None) \<Rightarrow> Inr (finishEmpty result, lg)
         | Inr (lg, Some (groupByColumns, aggregates0)) \<Rightarrow>
             (case resolveAliases g subtreeVarCols (aliases g) lg aggregates0 of
                Inl e \<Rightarrow> Inl e
              | Inr (lg', None) \<Rightarrow> Inr (finishEmpty result, lg')
              | Inr (lg', Some aggregates) \<Rightarrow>
                  (case outputTypes E subresult aggregates [0..<nofColumns result] of
                     Inl e \<Rightarrow> Inl e
                   | Inr types \<Rightarrow>
                       (let inputResultTypes =
                              map (getResultType E (resultTypes subresult))
                                [0..<nofColumns subresult];
                            fixedWidth = fixedWidthOf (length aggregates)
                        in case doGroupBy E (rows subresult) inputResultTypes groupByColumns
                                  aggregates fixedWidth
                                  (if fixedWidth = None then rows result else [])
                                  (localVocab subresult) (localVocab result) of
                             Inl e \<Rightarrow> Inl e
                           | Inr (rws, vocab) \<Rightarrow>
                               Inr (result\<lparr>resultTypes := types, rows := rws,
                                           localVocab := vocab, finished := True\<rparr>, lg')))))"

section \<open>An instance of the collaborators\<close>

text \<open>
  The theorems below hold for every environment \<open>E\<close>. To run the model on concrete
  inputs, \<open>exampleEnv\<close> is one small environment: a float is a rational number or NaN
  (\<open>None\<close>), arithmetic with NaN gives NaN, the vocabulary of the index has three
  entries, and typed literals carry the prefixes \<open>:v:\<close> and \<open>:v:float:\<close>.
\<close>

definition exampleEnv :: "(rat option) Env" where
  "exampleEnv =
     \<lparr>fzero = Some 0, fnan = None, flowest = Some (- 1000), fhighest = Some 1000,
      fadd = (\<lambda>a b. case (a, b) of (Some x, Some y) \<Rightarrow> Some (x + y) | _ \<Rightarrow> None),
      fdiv = (\<lambda>a b. case (a, b) of
                       (Some x, Some y) \<Rightarrow> (if y = 0 then None else Some (x / y))
                     | _ \<Rightarrow> None),
      fless = (\<lambda>a b. case (a, b) of (Some x, Some y) \<Rightarrow> x < y | _ \<Rightarrow> False),
      ofU64 = (\<lambda>v. Some (of_nat (unat v))),
      ofBits = (\<lambda>w. if w = - 1 then None else Some (of_nat (unat w))),
      toBits = (\<lambda>x. case x of None \<Rightarrow> - 1 | Some q \<Rightarrow> word_of_int (floor q)),
      showFloat = (\<lambda>x. case x of None \<Rightarrow> ''nan'' | Some q \<Rightarrow> showNat (nat (floor q))),
      idToString = (\<lambda>v. if v = 0 then '':v:float:7F'' else if v = 1 then ''<entity>''
                         else '':v:float:3F''),
      getTextExcerpt = (\<lambda>v. ''text''),
      VALUE_PREFIX = '':v:'',
      VALUE_FLOAT_PREFIX = '':v:float:'',
      convertIndexWordToFloatValue = (\<lambda>s. Some (of_nat (length s))),
      convertIndexWordToValueLiteral = (\<lambda>s. drop 3 s),
      ID_NO_VALUE = - 3,
      tableIdToString = (\<lambda>vocab v. if unat v < length vocab then vocab ! unat v else []),
      getResultType = (\<lambda>ts i. if i < length ts then ts ! i else KB)\<rparr>"

section \<open>The words of the specification\<close>

text \<open>
  The specification describes the text of a GROUP_CONCAT as the values \<open>v1 \<dots> vn\<close> joined
  by the separator, with no separator behind the last one, and DISTINCT as removing the
  values that occurred before, keeping the order of the first occurrences. These two
  functions say that; they are not taken from the source.
\<close>

fun joinWith :: "string \<Rightarrow> string list \<Rightarrow> string" where
  "joinWith sep [] = []"
| "joinWith sep [x] = x"
| "joinWith sep (x # y # ys) = x @ sep @ joinWith sep (y # ys)"

fun firstOccurrences :: "'a set \<Rightarrow> 'a list \<Rightarrow> 'a list" where
  "firstOccurrences seen [] = []"
| "firstOccurrences seen (x # xs) =
     (if x \<in> seen then firstOccurrences seen xs
      else x # firstOccurrences (insert x seen) xs)"

text \<open>The values of column \<open>col\<close> in the rows \<open>blockStart \<dots> blockEnd\<close> of the input.\<close>

definition columnValues :: "Id list list \<Rightarrow> nat \<Rightarrow> nat \<Rightarrow> nat \<Rightarrow> Id list" where
  "columnValues input col blockStart blockEnd =
     map (\<lambda>i. input ! i ! col) [blockStart..<Suc blockEnd]"

text \<open>
  A run \<open>[blockStart, blockEnd]\<close> of the input that a kernel can read: it is not empty,
  it ends inside the input, and each of its rows has the column \<open>col\<close>.
\<close>

definition validRun :: "Id list list \<Rightarrow> nat \<Rightarrow> nat \<Rightarrow> nat \<Rightarrow> bool" where
  "validRun input col blockStart blockEnd \<longleftrightarrow>
     blockStart \<le> blockEnd \<and> blockEnd < length input \<and> length input < 2 ^ 64
     \<and> (\<forall>i \<in> set [blockStart..<Suc blockEnd]. col < length (input ! i))"

text \<open>
  The accumulated sum of the specification: the summands of the values are added from
  left to right; a value without a summand (a vocabulary entry that is no float literal)
  makes the sum NaN and ends the accumulation.
\<close>

fun sumValues :: "'f Env \<Rightarrow> (Id \<Rightarrow> 'f option) \<Rightarrow> Id list \<Rightarrow> 'f \<Rightarrow> 'f" where
  "sumValues E dec [] res = res"
| "sumValues E dec (v # vs) res =
     (case dec v of None \<Rightarrow> fnan E | Some x \<Rightarrow> sumValues E dec vs (fadd E res x))"

text \<open>
  The sum of a run over a column of type \<open>t\<close>: NaN for TEXT and STRING, and otherwise the
  accumulated sum of the values of the run, or of their first occurrences under DISTINCT,
  starting from zero. A VERBATIM value counts as the integer it is, a FLOAT value as the
  float in its low four bytes, and a vocabulary value as the float its literal encodes.
\<close>

definition runSum :: "'f Env \<Rightarrow> ResultType \<Rightarrow> bool \<Rightarrow> Id list \<Rightarrow> 'f" where
  "runSum E t d vals =
     (if t = TEXT \<or> t = STRING then fnan E
      else sumValues E
             (if t = VERBATIM then decVerbatim E else if t = FLOAT then decFloat E
              else decKB E)
             (if d then firstOccurrences {} vals else vals) (fzero E))"

section \<open>LIMIT and OFFSET on a result (engine/Result.h)\<close>

text \<open>
  Modelled from the spec: \<open>Result::applyLimitOffset\<close> and \<open>LimitOffsetClause\<close> live in
  engine/Result.cpp and its headers, which are not part of the sources at hand; only
  their test (test/ResultTest.cpp) is. The spec gives the clause as
  \<open>{limit: u64 (absent = unlimited), offset: u64 (default 0)}\<close>, a result as either a
  materialized table or a lazy stream of chunks, and \<open>applyLimitOffset\<close> as rewriting the
  table or the stream so that only the rows \<open>[offset, offset + limit)\<close> are emitted.
\<close>

record LimitOffsetClause =
  limit :: "nat option"
  offset :: nat

datatype Result = Materialized "Id list list" | Lazy "Id list list list"

text \<open>The rows of a table that LIMIT and OFFSET keep.\<close>

definition limitRows :: "nat option \<Rightarrow> nat \<Rightarrow> Id list list \<Rightarrow> Id list list" where
  "limitRows lmt off t = (case lmt of None \<Rightarrow> drop off t | Some l \<Rightarrow> take l (drop off t))"

text \<open>
  On a stream the rewriting is layered on the chunks: each chunk loses the rows that
  still fall under the offset and the rows beyond the limit that is left. The spec fixes
  the rows that remain, not how many chunks carry them; a chunk that loses all its rows
  stays in the model as an empty chunk.
\<close>

fun limitChunks :: "nat option \<Rightarrow> nat \<Rightarrow> Id list list list \<Rightarrow> Id list list list" where
  "limitChunks lmt off [] = []"
| "limitChunks lmt off (c # cs) =
     (let kept = limitRows lmt off c
      in kept # limitChunks (map_option (\<lambda>l. l - length kept) lmt) (off - length c) cs)"

definition applyLimitOffset :: "LimitOffsetClause \<Rightarrow> Result \<Rightarrow> Result" where
  "applyLimitOffset clause r =
     (case r of
        Materialized t \<Rightarrow> Materialized (limitRows (limit clause) (offset clause) t)
      | Lazy cs \<Rightarrow> Lazy (limitChunks (limit clause) (offset clause) cs))"

text \<open>The number of rows of a result: of the table, or of all chunks of the stream.\<close>

definition rowCount :: "Result \<Rightarrow> nat" where
  "rowCount r = (case r of Materialized t \<Rightarrow> length t | Lazy cs \<Rightarrow> length (concat cs))"

section \<open>Verified properties\<close>

subsection \<open>Classification of aggregates\<close>

lemma startsWith_iff: "startsWith f p \<longleftrightarrow> (\<exists>r. f = p @ r)"
  by (induction f p rule: startsWith.induct) auto

text \<open>
  Claim C10. The kind of an aggregate alias is decided by the prefix of its function
  text alone: the text is classified as COUNT, GROUP_CONCAT, SAMPLE, MIN, MAX, SUM or AVG
  exactly when it begins with that name, whatever follows (\<open>COUNTRY(?x)\<close> is a COUNT),
  and exactly a text that begins with none of the seven names is skipped by the alias
  loop, which logs the warning "Unknown aggregate" and resolves no descriptor for it.
\<close>

theorem classify_depends_on_prefix_only:
  "(classify f = Some COUNT \<longleftrightarrow> (\<exists>r. f = ''COUNT'' @ r))
   \<and> (classify f = Some GROUP_CONCAT \<longleftrightarrow> (\<exists>r. f = ''GROUP_CONCAT'' @ r))
   \<and> (classify f = Some SAMPLE \<longleftrightarrow> (\<exists>r. f = ''SAMPLE'' @ r))
   \<and> (classify f = Some MIN_agg \<longleftrightarrow> (\<exists>r. f = ''MIN'' @ r))
   \<and> (classify f = Some MAX_agg \<longleftrightarrow> (\<exists>r. f = ''MAX'' @ r))
   \<and> (classify f = Some SUM_agg \<longleftrightarrow> (\<exists>r. f = ''SUM'' @ r))
   \<and> (classify f = Some AVG \<longleftrightarrow> (\<exists>r. f = ''AVG'' @ r))
   \<and> (classify f = None \<longleftrightarrow>
        \<not> (\<exists>r. f = ''COUNT'' @ r \<or> f = ''GROUP_CONCAT'' @ r \<or> f = ''SAMPLE'' @ r
              \<or> f = ''MIN'' @ r \<or> f = ''MAX'' @ r \<or> f = ''SUM'' @ r \<or> f = ''AVG'' @ r))
   \<and> classify ''COUNTRY(?x)'' = Some COUNT
   \<and> (isAggregate a \<and> classify (func a) = None \<longrightarrow>
        resolveAliases g subtreeVarCols (a # rest) lg aggregates =
        resolveAliases g subtreeVarCols rest (lg @ [UnknownAggregate (func a)]) aggregates)"
  by (auto simp: classify_def startsWith_iff)

theorem classify_depends_on_prefix_only_witness:
  "isAggregate \<lparr>outVarName = ''?m'', func = ''MEDIAN(?x)'', isAggregate = True\<rparr>
   \<and> classify (func \<lparr>outVarName = ''?m'', func = ''MEDIAN(?x)'', isAggregate = True\<rparr>) = None
   \<and> resolveAliases \<lparr>groupByVariables = [], aliases = [], varColMap = [(''?m'', 0)]\<rparr>
        Map.empty [\<lparr>outVarName = ''?m'', func = ''MEDIAN(?x)'', isAggregate = True\<rparr>] [] []
      = Inr ([UnknownAggregate ''MEDIAN(?x)''], Some [])"
  using classify_depends_on_prefix_only
    [where f = "''MEDIAN(?x)''"
       and a = "\<lparr>outVarName = ''?m'', func = ''MEDIAN(?x)'', isAggregate = True\<rparr>"
       and g = "\<lparr>groupByVariables = [], aliases = [], varColMap = [(''?m'', 0)]\<rparr>"
       and subtreeVarCols = "Map.empty" and rest = "[]" and lg = "[]" and aggregates = "[]"]
  by (simp add: classify_def)

subsection \<open>GROUP_CONCAT\<close>

text \<open>
  Claim C1. The text of a GROUP_CONCAT is the decoded values joined by the separator,
  with no separator behind the last value; with DISTINCT the joined values are the first
  occurrences, again with no trailing separator. The source does so without DISTINCT. With
  DISTINCT it does not: on the fifth scenario of the specification, the rows
  \<open>(1,"a"), (1,"b"), (1,"a"), (2,"c")\<close> grouped by the first column with
  \<open>GROUP_CONCAT(DISTINCT ?y ; SEPARATOR=",")\<close>, the first group yields \<open>a,b,\<close> where the
  joined first occurrences are \<open>a,b\<close>, because the loop has written a separator
  behind \<open>b\<close> before the last row turns out to be a duplicate; and on a VERBATIM column
  line 265 writes the separator behind the last value itself, so the values 7 and 12
  yield \<open>7,12,\<close>.
\<close>

theorem group_concat_distinct_leaves_trailing_separator:
  \<open>computeResult exampleEnv
      (GroupBy_ctor (sort_key outVarName) [''?x'']
         [\<lparr>outVarName = ''?s'', func = ''GROUP_CONCAT(DISTINCT ?y ; SEPARATOR=",")'',
           isAggregate = True\<rparr>])
      [''?x'' \<mapsto> 0, ''?y'' \<mapsto> 1]
      \<lparr>nofColumns = 2, sortedBy = 0, resultTypes = [VERBATIM, STRING],
       rows = [[1, 0], [1, 1], [1, 0], [2, 2]], localVocab = [''a'', ''b'', ''c''],
       finished = True\<rparr>
      \<lparr>nofColumns = 0, sortedBy = 0, resultTypes = [], rows = [], localVocab = [],
       finished = False\<rparr>
    = Inr (\<lparr>nofColumns = 2, sortedBy = 0, resultTypes = [VERBATIM, STRING],
            rows = [[1, 0], [2, 1]], localVocab = [''a,b,'', ''c''], finished = True\<rparr>, [])
   \<and> joinWith '',''
        (map (tableIdToString exampleEnv [''a'', ''b'', ''c'']) (firstOccurrences {} [0, 1, 0]))
      = ''a,b''
   \<and> processGroup exampleEnv
        \<lparr>aggType = GROUP_CONCAT, inCol = 0, outCol = 0, userData = Some '','',
         isDistinct = True\<rparr>
        0 1 [[7], [12]] [VERBATIM] [0] [] [] {}
      = Inr ([0], [''7,12,''], {})
   \<and> joinWith '','' (map decimalText (firstOccurrences {} [7, 12])) = ''7,12''\<close>
  by code_simp

subsection \<open>The single group of an empty group-by list\<close>

text \<open>
  Claim C2. With no group-by columns and \<open>n > 0\<close> input rows the whole input is one
  run, and the bounds handed to the kernels should be the rows \<open>0\<close> to \<open>n - 1\<close>, so that
  no kernel reads a row at an index \<open>n\<close> or beyond. The source hands them \<open>blockStart = 0\<close>
  and \<open>blockEnd = n\<close> (line 540), while the last run of a non-empty group-by list ends at
  \<open>input->size() - 1\<close> (line 587). So \<open>COUNT(?y)\<close> over four rows yields 5, a COUNT over
  three rows yields 4, and SAMPLE and COUNT DISTINCT read the row at index \<open>n\<close>, which
  does not exist. Grouped by a column, the same COUNT yields the run lengths 2 and 1.
\<close>

theorem empty_group_by_run_ends_behind_input:
  \<open>computeResult exampleEnv
      (GroupBy_ctor (sort_key outVarName) []
         [\<lparr>outVarName = ''?n'', func = ''COUNT(?y)'', isAggregate = True\<rparr>])
      [''?x'' \<mapsto> 0, ''?y'' \<mapsto> 1]
      \<lparr>nofColumns = 2, sortedBy = 0, resultTypes = [VERBATIM, STRING],
       rows = [[1, 0], [1, 1], [1, 0], [2, 2]], localVocab = [''a'', ''b'', ''c''],
       finished = True\<rparr>
      \<lparr>nofColumns = 0, sortedBy = 0, resultTypes = [], rows = [], localVocab = [],
       finished = False\<rparr>
    = Inr (\<lparr>nofColumns = 1, sortedBy = 0, resultTypes = [VERBATIM], rows = [[5]],
            localVocab = [], finished = True\<rparr>, [])
   \<and> doGroupBy exampleEnv [[5], [6], [7]] [VERBATIM] []
      [\<lparr>aggType = COUNT, inCol = 0, outCol = 0, userData = None, isDistinct = False\<rparr>]
      (Some 1) [] [] []
    = Inr ([[4]], [])
   \<and> doGroupBy exampleEnv [[5], [6], [7]] [VERBATIM] []
      [\<lparr>aggType = SAMPLE, inCol = 0, outCol = 0, userData = None, isDistinct = False\<rparr>]
      (Some 1) [] [] []
    = Inl OutOfBounds
   \<and> doGroupBy exampleEnv [[5], [6], [7]] [VERBATIM] []
      [\<lparr>aggType = COUNT, inCol = 0, outCol = 0, userData = None, isDistinct = True\<rparr>]
      (Some 1) [] [] []
    = Inl OutOfBounds
   \<and> doGroupBy exampleEnv [[5], [5], [7]] [VERBATIM] [0]
      [\<lparr>aggType = COUNT, inCol = 0, outCol = 0, userData = None, isDistinct = False\<rparr>]
      (Some 1) [] [] []
    = Inr ([[2], [1]], [])\<close>
  by code_simp

subsection \<open>SUM and AVG\<close>

lemma cell_valid:
  "i < length input \<Longrightarrow> col < length (input ! i) \<Longrightarrow> cell input i col = Inr (input ! i ! col)"
  by (simp add: cell_def)

lemma accumulate_sumValues:
  assumes "\<forall>i \<in> set is. i < length input \<and> col < length (input ! i)"
  shows "\<exists>hs'. accumulate E dec d input col is res hs =
           Inr (sumValues E dec
                  (if d then firstOccurrences hs (map (\<lambda>i. input ! i ! col) is)
                   else map (\<lambda>i. input ! i ! col) is) res, hs')
              \<and> (\<not> d \<longrightarrow> hs' = hs)"
  using assms
proof (induction "is" arbitrary: res hs)
  case Nil
  then show ?case by simp
next
  case (Cons i "is")
  then have c: "cell input i col = Inr (input ! i ! col)"
    by (simp add: cell_valid)
  from Cons.prems have v: "\<forall>i \<in> set is. i < length input \<and> col < length (input ! i)"
    by simp
  show ?case
  proof (cases "d \<and> input ! i ! col \<in> hs")
    case True
    with Cons.IH [OF v, of res hs] c show ?thesis by simp
  next
    case False
    show ?thesis
    proof (cases "dec (input ! i ! col)")
      case None
      with False c show ?thesis by auto
    next
      case (Some x)
      with False c Cons.IH [OF v, of "fadd E res x" "if d then insert (input ! i ! col) hs else hs"]
      show ?thesis by auto
    qed
  qed
qed

lemma accumulate_break:
  assumes "\<forall>i \<in> set (is1 @ [k]). i < length input \<and> col < length (input ! i)"
    and "dec (input ! k ! col) = None"
    and "d \<longrightarrow> input ! k ! col \<notin> hs"
  shows "\<exists>hs'. accumulate E dec d input col (is1 @ k # is2) res hs = Inr (fnan E, hs')
           \<and> (\<not> d \<longrightarrow> hs' = hs)"
  using assms
proof (induction is1 arbitrary: res hs)
  case Nil
  then show ?case by (auto simp: cell_valid)
next
  case (Cons i is1)
  then have c: "cell input i col = Inr (input ! i ! col)"
    by (simp add: cell_valid)
  from Cons.prems have v: "\<forall>i \<in> set (is1 @ [k]). i < length input \<and> col < length (input ! i)"
    by simp
  show ?case
  proof (cases "d \<and> input ! i ! col \<in> hs")
    case True
    with Cons.IH [OF v Cons.prems(2) Cons.prems(3), of res] c show ?thesis by simp
  next
    case False
    show ?thesis
    proof (cases "dec (input ! i ! col)")
      case None
      with False c show ?thesis by auto
    next
      case (Some x)
      have "d \<longrightarrow> input ! k ! col \<notin> (if d then insert (input ! i ! col) hs else hs)"
        using Cons.prems(2,3) Some by auto
      from Cons.IH [OF v Cons.prems(2) this, of "fadd E res x"] False c Some
      show ?thesis by auto
    qed
  qed
qed

lemma sumValues_total:
  "sumValues E (\<lambda>v. Some (f v)) vs res = foldl (fadd E) res (map f vs)"
  by (induction vs arbitrary: res) auto

lemma runLength_eq:
  "blockStart \<le> blockEnd \<Longrightarrow> runLength blockStart blockEnd = word_of_nat (blockEnd - blockStart + 1)"
  by (simp add: runLength_def)


lemma accumulated_runSum:
  assumes "validRun input (inCol a) blockStart blockEnd"
    and "inCol a < length inputTypes"
  shows "accumulated E a blockStart blockEnd input inputTypes {} =
           Inr (runSum E (inputTypes ! inCol a) (isDistinct a)
                  (columnValues input (inCol a) blockStart blockEnd), {})"
proof -
  from assms(1) have v: "\<forall>i \<in> set [blockStart..<Suc blockEnd].
      i < length input \<and> inCol a < length (input ! i)"
    by (auto simp: validRun_def)
  have loop: "(case accumulate E dec (isDistinct a) input (inCol a)
                      [blockStart..<Suc blockEnd] (fzero E) {} of
                 Inl e \<Rightarrow> Inl e
               | Inr (res, hs') \<Rightarrow> Inr (res, if isDistinct a then {} else hs'))
              = Inr (sumValues E dec
                      (if isDistinct a
                       then firstOccurrences {} (columnValues input (inCol a) blockStart blockEnd)
                       else columnValues input (inCol a) blockStart blockEnd) (fzero E), {})"
    for dec
    using accumulate_sumValues [OF v, of E dec "isDistinct a" "fzero E" "{}"]
    by (auto simp: columnValues_def simp del: upt_Suc)
  show ?thesis
    using assms(2) by (simp add: accumulated_def runSum_def loop Let_def del: upt_Suc)
qed

text \<open>
  Claim C4. For every run \<open>[blockStart, blockEnd]\<close> of the input and every AVG descriptor,
  the cell written is the float encoding of the accumulated sum of the run divided by
  the run length \<open>blockEnd - blockStart + 1\<close>, whether or not the descriptor is
  distinct. With DISTINCT the sum runs over the first occurrences of the values only,
  and the divisor is still the run length, not the number of distinct values. For
  VERBATIM and FLOAT columns the accumulated sum is the left-to-right sum of the
  values read as integers and as floats. The hash set is empty when a kernel starts
  and when it ends.
\<close>

theorem avg_divides_sum_by_run_length:
  assumes "aggType a = AVG"
    and "validRun input (inCol a) blockStart blockEnd"
    and "inCol a < length inputTypes"
    and "outCol a < length resultRow"
  shows "processGroup E a blockStart blockEnd input inputTypes resultRow inVocab outVocab {} =
           Inr (resultRow[outCol a :=
                  floatId E
                    (fdiv E
                       (runSum E (inputTypes ! inCol a) (isDistinct a)
                          (columnValues input (inCol a) blockStart blockEnd))
                       (ofU64 E (word_of_nat (blockEnd - blockStart + 1))))],
                outVocab, {})
         \<and> unat (word_of_nat (blockEnd - blockStart + 1) :: Id) = blockEnd - blockStart + 1
         \<and> runSum E VERBATIM True vals =
             foldl (fadd E) (fzero E) (map (ofU64 E) (firstOccurrences {} vals))
         \<and> runSum E VERBATIM False vals = foldl (fadd E) (fzero E) (map (ofU64 E) vals)
         \<and> runSum E FLOAT True vals =
             foldl (fadd E) (fzero E) (map (asFloat E) (firstOccurrences {} vals))
         \<and> runSum E FLOAT False vals = foldl (fadd E) (fzero E) (map (asFloat E) vals)"
proof -
  have "blockEnd < length input" and "length input < 2 ^ 64"
    using assms(2) by (simp_all add: validRun_def)
  then have len: "blockEnd - blockStart + 1 < 2 ^ 64"
    by linarith
  have "unat (word_of_nat n :: Id) = n" if "n < 2 ^ 64" for n
    using that by (simp add: unat_of_nat)
  from this [OF len]
  have u: "unat (word_of_nat (blockEnd - blockStart + 1) :: Id) = blockEnd - blockStart + 1" .
  have dv: "decVerbatim E = (\<lambda>v. Some (ofU64 E v))"
    and df: "decFloat E = (\<lambda>v. Some (asFloat E v))"
    by (auto simp: decVerbatim_def decFloat_def)
  have le: "blockStart \<le> blockEnd"
    using assms(2) by (simp add: validRun_def)
  have pg: "processGroup E a blockStart blockEnd input inputTypes resultRow inVocab outVocab {} =
           Inr (resultRow[outCol a :=
                  floatId E
                    (fdiv E
                       (runSum E (inputTypes ! inCol a) (isDistinct a)
                          (columnValues input (inCol a) blockStart blockEnd))
                       (ofU64 E (word_of_nat (blockEnd - blockStart + 1))))],
                outVocab, {})"
    using assms(1,4)
    by (simp add: processGroup_def accumulated_runSum [OF assms(2,3)] setCell_def
        runLength_eq [OF le])
  have rs: "runSum E VERBATIM True vals =
             foldl (fadd E) (fzero E) (map (ofU64 E) (firstOccurrences {} vals))"
     "runSum E VERBATIM False vals = foldl (fadd E) (fzero E) (map (ofU64 E) vals)"
     "runSum E FLOAT True vals =
             foldl (fadd E) (fzero E) (map (asFloat E) (firstOccurrences {} vals))"
     "runSum E FLOAT False vals = foldl (fadd E) (fzero E) (map (asFloat E) vals)"
    by (simp_all add: runSum_def dv df sumValues_total)
  show ?thesis
    using pg u rs by blast
qed


theorem avg_divides_sum_by_run_length_witness:
  "aggType \<lparr>aggType = AVG, inCol = 0, outCol = 1, userData = None, isDistinct = True\<rparr> = AVG
   \<and> validRun [[2], [2], [4]] 0 0 2
   \<and> processGroup exampleEnv
        \<lparr>aggType = AVG, inCol = 0, outCol = 1, userData = None, isDistinct = True\<rparr>
        0 2 [[2], [2], [4]] [VERBATIM] [0, 0] [] [] {}
      = Inr ([0, 2], [], {})
   \<and> runSum exampleEnv VERBATIM True [2, 2, 4] = Some 6
   \<and> fdiv exampleEnv (Some 6) (ofU64 exampleEnv 3) = Some 2"
proof -
  let ?a = "\<lparr>aggType = AVG, inCol = 0, outCol = 1, userData = None, isDistinct = True\<rparr>"
  have h1: "aggType ?a = AVG" by simp
  have "\<forall>i \<in> set [0..<Suc 2]. inCol ?a < length ([[2], [2], [4 :: Id]] ! i)"
    by code_simp
  then have h2: "validRun [[2], [2], [4]] (inCol ?a) 0 2"
    by (simp add: validRun_def)
  have h3: "inCol ?a < length [VERBATIM]" by simp
  have h4: "outCol ?a < length [0, 0 :: Id]" by simp
  have r: "runSum exampleEnv VERBATIM True [2, 2, 4] = Some 6" by code_simp
  have c: "columnValues [[2], [2], [4]] 0 0 2 = [2, 2, 4]" by code_simp
  have d: "fdiv exampleEnv (Some 6) (ofU64 exampleEnv 3) = Some 2"
    by code_simp
  have f: "floatId exampleEnv (Some 2) = 2" by code_simp
  from avg_divides_sum_by_run_length [OF h1 h2 h3 h4, of exampleEnv "[]" "[]"]
  have "processGroup exampleEnv ?a 0 2 [[2], [2], [4]] [VERBATIM] [0, 0] [] [] {}
        = Inr ([0, 2], [], {})"
    by (simp add: r c d f)
  with h2 r d show ?thesis by simp
qed

lemma firstOccurrences_subset: "set (firstOccurrences seen xs) \<subseteq> set xs"
  by (induction xs arbitrary: seen) auto

lemma take_size_sub: "take (size_sub (length e) 1) e = butlast e"
proof (cases e rule: rev_cases)
  case Nil
  then show ?thesis by simp
next
  case (snoc ys y)
  then show ?thesis by (simp add: size_sub_def)
qed

lemma sumValues_decKB:
  assumes "\<forall>v \<in> set vs. startsWith (idToString E v) (VALUE_FLOAT_PREFIX E)"
  shows "sumValues E (decKB E) vs res =
           foldl (fadd E) res
             (map (\<lambda>v. convertIndexWordToFloatValue E (butlast (idToString E v))) vs)"
  using assms
  by (induction vs arbitrary: res) (auto simp: decKB_def take_size_sub [simplified] Let_def)

lemma accumulated_break:
  assumes "blockStart \<le> k" and "k \<le> blockEnd"
    and "\<forall>i \<in> set [blockStart..<Suc k]. i < length input \<and> inCol a < length (input ! i)"
    and "inCol a < length inputTypes"
    and "inputTypes ! inCol a = KB"
    and "\<not> startsWith (idToString E (input ! k ! inCol a)) (VALUE_FLOAT_PREFIX E)"
  shows "accumulated E a blockStart blockEnd input inputTypes {} = Inr (fnan E, {})"
proof -
  have "[blockStart..<Suc blockEnd] = [blockStart..<k] @ [k..<Suc blockEnd]"
    using upt_add_eq_append [OF assms(1), of "Suc blockEnd - k"] assms(2)
    by (simp del: upt_Suc)
  moreover have "[k..<Suc blockEnd] = k # [Suc k..<Suc blockEnd]"
    using assms(2) by (simp add: upt_conv_Cons del: upt_Suc)
  ultimately
  have split: "[blockStart..<Suc blockEnd] = [blockStart..<k] @ k # [Suc k..<Suc blockEnd]"
    by simp
  have v: "\<forall>i \<in> set ([blockStart..<k] @ [k]). i < length input \<and> inCol a < length (input ! i)"
    using assms(1,3) by auto
  have n: "decKB E (input ! k ! inCol a) = None"
    using assms(6) by (simp add: decKB_def)
  have "\<exists>hs'. accumulate E (decKB E) (isDistinct a) input (inCol a)
               ([blockStart..<k] @ k # [Suc k..<Suc blockEnd]) (fzero E) {} = Inr (fnan E, hs')
             \<and> (\<not> isDistinct a \<longrightarrow> hs' = {})"
    by (rule accumulate_break) (use v n in auto)
  then obtain hs' where
    acc: "accumulate E (decKB E) (isDistinct a) input (inCol a)
               [blockStart..<Suc blockEnd] (fzero E) {} = Inr (fnan E, hs')"
    and hs': "\<not> isDistinct a \<longrightarrow> hs' = {}"
    unfolding split by blast
  show ?thesis
    unfolding accumulated_def Let_def acc
    using assms(4,5) hs' by simp
qed


lemma processGroup_sum_avg:
  assumes "aggType a = SUM_agg \<or> aggType a = AVG"
    and "outCol a < length resultRow"
    and "accumulated E a blockStart blockEnd input inputTypes hs = Inr (res, hs')"
  shows "processGroup E a blockStart blockEnd input inputTypes resultRow inVocab outVocab hs =
           Inr (resultRow[outCol a :=
                  floatId E (if aggType a = AVG
                             then fdiv E res (ofU64 E (runLength blockStart blockEnd))
                             else res)],
                outVocab, hs')"
  using assms by (auto simp: processGroup_def setCell_def)

text \<open>
  Claim C5. For every run, a SUM or AVG over a TEXT or STRING column yields NaN. Over a
  KB column, as soon as a row \<open>k\<close> of the run holds a value whose vocabulary string does
  not start with \<open>VALUE_FLOAT_PREFIX\<close> the result is NaN and nothing is accumulated behind
  that row (the rows behind \<open>k\<close> need not even be readable); if every string of the run
  starts with the prefix, the sum adds, from left to right, the floats that
  \<open>convertIndexWordToFloatValue\<close> gives for the strings without their last character.
  AVG divides either outcome by the run length, and NaN divided by a float is NaN. That
  quiet_NaN is a NaN and that division keeps a NaN are the two facts of float arithmetic
  the theorem assumes.
\<close>

theorem sum_avg_nan_or_decoded_literals:
  fixes isnan :: "'f \<Rightarrow> bool"
  assumes "aggType a = SUM_agg \<or> aggType a = AVG"
    and "inCol a < length inputTypes"
    and "outCol a < length resultRow"
    and "isnan (fnan E)"
    and "\<forall>x y. isnan x \<longrightarrow> isnan (fdiv E x y)"
  shows
    "(inputTypes ! inCol a = TEXT \<or> inputTypes ! inCol a = STRING \<longrightarrow>
        (\<exists>res. isnan res
           \<and> res = (if aggType a = AVG
                    then fdiv E (fnan E) (ofU64 E (runLength blockStart blockEnd))
                    else fnan E)
           \<and> processGroup E a blockStart blockEnd input inputTypes resultRow inVocab outVocab {}
               = Inr (resultRow[outCol a := floatId E res], outVocab, {})))
     \<and> (inputTypes ! inCol a = KB \<and> blockStart \<le> k \<and> k \<le> blockEnd
          \<and> (\<forall>i \<in> set [blockStart..<Suc k]. i < length input \<and> inCol a < length (input ! i))
          \<and> \<not> startsWith (idToString E (input ! k ! inCol a)) (VALUE_FLOAT_PREFIX E) \<longrightarrow>
        (\<exists>res. isnan res
           \<and> res = (if aggType a = AVG
                    then fdiv E (fnan E) (ofU64 E (runLength blockStart blockEnd))
                    else fnan E)
           \<and> processGroup E a blockStart blockEnd input inputTypes resultRow inVocab outVocab {}
               = Inr (resultRow[outCol a := floatId E res], outVocab, {})))
     \<and> (inputTypes ! inCol a = KB \<and> validRun input (inCol a) blockStart blockEnd
          \<and> (\<forall>v \<in> set (columnValues input (inCol a) blockStart blockEnd).
                 startsWith (idToString E v) (VALUE_FLOAT_PREFIX E)) \<longrightarrow>
        (\<exists>res. res = foldl (fadd E) (fzero E)
                       (map (\<lambda>v. convertIndexWordToFloatValue E (butlast (idToString E v)))
                          (if isDistinct a
                           then firstOccurrences {}
                                  (columnValues input (inCol a) blockStart blockEnd)
                           else columnValues input (inCol a) blockStart blockEnd))
           \<and> processGroup E a blockStart blockEnd input inputTypes resultRow inVocab outVocab {}
               = Inr (resultRow[outCol a :=
                        floatId E (if aggType a = AVG
                                   then fdiv E res
                                          (ofU64 E (word_of_nat (blockEnd - blockStart + 1)))
                                   else res)],
                      outVocab, {})))"
proof (intro conjI impI)
  let ?nan = "if aggType a = AVG
              then fdiv E (fnan E) (ofU64 E (runLength blockStart blockEnd)) else fnan E"
  have nan: "isnan ?nan"
    using assms(4,5) by simp
  {
    assume t: "inputTypes ! inCol a = TEXT \<or> inputTypes ! inCol a = STRING"
    then have "accumulated E a blockStart blockEnd input inputTypes {} = Inr (fnan E, {})"
      using assms(2) by (auto simp: accumulated_def)
    from processGroup_sum_avg [OF assms(1,3) this] nan
    show "\<exists>res. isnan res \<and> res = ?nan
           \<and> processGroup E a blockStart blockEnd input inputTypes resultRow inVocab outVocab {}
               = Inr (resultRow[outCol a := floatId E res], outVocab, {})"
      by auto
  }
  {
    assume h: "inputTypes ! inCol a = KB \<and> blockStart \<le> k \<and> k \<le> blockEnd
          \<and> (\<forall>i \<in> set [blockStart..<Suc k]. i < length input \<and> inCol a < length (input ! i))
          \<and> \<not> startsWith (idToString E (input ! k ! inCol a)) (VALUE_FLOAT_PREFIX E)"
    then have "accumulated E a blockStart blockEnd input inputTypes {} = Inr (fnan E, {})"
      using assms(2) by (intro accumulated_break [of blockStart k]) blast+
    from processGroup_sum_avg [OF assms(1,3) this] nan
    show "\<exists>res. isnan res \<and> res = ?nan
           \<and> processGroup E a blockStart blockEnd input inputTypes resultRow inVocab outVocab {}
               = Inr (resultRow[outCol a := floatId E res], outVocab, {})"
      by auto
  }
  {
    let ?vals = "columnValues input (inCol a) blockStart blockEnd"
    let ?vs = "if isDistinct a then firstOccurrences {} ?vals else ?vals"
    assume h: "inputTypes ! inCol a = KB \<and> validRun input (inCol a) blockStart blockEnd
          \<and> (\<forall>v \<in> set ?vals. startsWith (idToString E v) (VALUE_FLOAT_PREFIX E))"
    then have good: "\<forall>v \<in> set ?vs. startsWith (idToString E v) (VALUE_FLOAT_PREFIX E)"
      using firstOccurrences_subset [of "{}" ?vals] by auto
    have le: "blockStart \<le> blockEnd"
      using h by (simp add: validRun_def)
    have "runSum E KB (isDistinct a) ?vals =
            foldl (fadd E) (fzero E)
              (map (\<lambda>v. convertIndexWordToFloatValue E (butlast (idToString E v))) ?vs)"
      using sumValues_decKB [OF good, of "fzero E"] by (simp add: runSum_def)
    moreover have "accumulated E a blockStart blockEnd input inputTypes {} =
            Inr (runSum E KB (isDistinct a) ?vals, {})"
      using accumulated_runSum [of input a blockStart blockEnd inputTypes E] h assms(2) by simp
    ultimately
    show "\<exists>res. res = foldl (fadd E) (fzero E)
                       (map (\<lambda>v. convertIndexWordToFloatValue E (butlast (idToString E v))) ?vs)
           \<and> processGroup E a blockStart blockEnd input inputTypes resultRow inVocab outVocab {}
               = Inr (resultRow[outCol a :=
                        floatId E (if aggType a = AVG
                                   then fdiv E res
                                          (ofU64 E (word_of_nat (blockEnd - blockStart + 1)))
                                   else res)],
                      outVocab, {})"
      using processGroup_sum_avg [OF assms(1,3), of E blockStart blockEnd input inputTypes "{}"
          "runSum E KB (isDistinct a) ?vals" "{}" inVocab outVocab] runLength_eq [OF le]
      by simp
  }
qed


theorem sum_avg_nan_or_decoded_literals_witness:
  "(aggType \<lparr>aggType = SUM_agg, inCol = 0, outCol = 0, userData = None, isDistinct = False\<rparr>
      = SUM_agg
    \<or> aggType \<lparr>aggType = SUM_agg, inCol = 0, outCol = 0, userData = None, isDistinct = False\<rparr>
      = AVG)
   \<and> fnan exampleEnv = None
   \<and> \<not> startsWith (idToString exampleEnv ([[0], [1], [2]] ! 1 ! 0)) (VALUE_FLOAT_PREFIX exampleEnv)
   \<and> processGroup exampleEnv
        \<lparr>aggType = SUM_agg, inCol = 0, outCol = 0, userData = None, isDistinct = False\<rparr>
        0 2 [[0], [1], [2]] [KB] [0] [] [] {}
      = Inr ([floatId exampleEnv None], [], {})
   \<and> validRun [[0], [2]] 0 0 1
   \<and> processGroup exampleEnv
        \<lparr>aggType = SUM_agg, inCol = 0, outCol = 0, userData = None, isDistinct = False\<rparr>
        0 1 [[0], [2]] [KB] [0] [] [] {}
      = Inr ([floatId exampleEnv (Some 20)], [], {})
   \<and> processGroup exampleEnv
        \<lparr>aggType = SUM_agg, inCol = 0, outCol = 0, userData = None, isDistinct = False\<rparr>
        0 1 [[0], [2]] [TEXT] [0] [] [] {}
      = Inr ([floatId exampleEnv None], [], {})"
proof -
  let ?a = "\<lparr>aggType = SUM_agg, inCol = 0, outCol = 0, userData = None, isDistinct = False\<rparr>"
  have h1: "aggType ?a = SUM_agg \<or> aggType ?a = AVG" by simp
  have h3: "outCol ?a < length [0 :: Id]" by simp
  have h4: "fnan exampleEnv = None" by (simp add: exampleEnv_def)
  have h5: "\<forall>x y. x = None \<longrightarrow> fdiv exampleEnv x y = None" by (simp add: exampleEnv_def)
  have bad: "\<not> startsWith (idToString exampleEnv ([[0], [1], [2]] ! 1 ! 0))
                (VALUE_FLOAT_PREFIX exampleEnv)"
    by code_simp
  have p2: "[KB] ! inCol ?a = KB \<and> (0::nat) \<le> 1 \<and> (1::nat) \<le> 2
          \<and> (\<forall>i \<in> set [0..<Suc 1]. i < length [[0], [1], [2 :: Id]]
                 \<and> inCol ?a < length ([[0], [1], [2 :: Id]] ! i))
          \<and> \<not> startsWith (idToString exampleEnv ([[0], [1], [2]] ! 1 ! inCol ?a))
                (VALUE_FLOAT_PREFIX exampleEnv)"
    by code_simp
  have "\<forall>i \<in> set [0..<Suc 1]. (0::nat) < length ([[0], [2 :: Id]] ! i)"
    by code_simp
  then have run: "validRun [[0], [2]] 0 0 1"
    by (simp add: validRun_def)
  have good: "\<forall>v \<in> set (columnValues [[0], [2]] 0 0 1).
                startsWith (idToString exampleEnv v) (VALUE_FLOAT_PREFIX exampleEnv)"
    by code_simp
  have sum: "foldl (fadd exampleEnv) (fzero exampleEnv)
               (map (\<lambda>v. convertIndexWordToFloatValue exampleEnv
                            (butlast (idToString exampleEnv v)))
                  (columnValues [[0], [2]] 0 0 1)) = Some 20"
    by code_simp
  have r2: "processGroup exampleEnv ?a 0 2 [[0], [1], [2]] [KB] [0] [] [] {}
      = Inr ([floatId exampleEnv None], [], {})"
    using sum_avg_nan_or_decoded_literals
      [where isnan = "\<lambda>x. x = None" and E = exampleEnv and a = ?a and inputTypes = "[KB]"
         and resultRow = "[0]" and input = "[[0], [1], [2]]" and blockStart = 0
         and blockEnd = 2 and k = 1 and inVocab = "[]" and outVocab = "[]", OF h1 _ h3 h4 h5]
      p2 h4
    by simp
  have r3: "processGroup exampleEnv ?a 0 1 [[0], [2]] [KB] [0] [] [] {}
      = Inr ([floatId exampleEnv (Some 20)], [], {})"
    using sum_avg_nan_or_decoded_literals
      [where isnan = "\<lambda>x. x = None" and E = exampleEnv and a = ?a and inputTypes = "[KB]"
         and resultRow = "[0]" and input = "[[0], [2]]" and blockStart = 0
         and blockEnd = 1 and k = 0 and inVocab = "[]" and outVocab = "[]", OF h1 _ h3 h4 h5]
      run good sum
    by simp
  have r1: "processGroup exampleEnv ?a 0 1 [[0], [2]] [TEXT] [0] [] [] {}
      = Inr ([floatId exampleEnv None], [], {})"
    using sum_avg_nan_or_decoded_literals
      [where isnan = "\<lambda>x. x = None" and E = exampleEnv and a = ?a and inputTypes = "[TEXT]"
         and resultRow = "[0]" and input = "[[0], [2]]" and blockStart = 0
         and blockEnd = 1 and k = 0 and inVocab = "[]" and outVocab = "[]", OF h1 _ h3 h4 h5]
      h4
    by simp
  show ?thesis
    using h1 h4 bad r2 run r3 r1 by blast
qed

subsection \<open>GROUP_CONCAT and the local vocabulary\<close>

lemma concatLoop_valid:
  assumes "\<forall>i \<in> set is. i < length input \<and> col < length (input ! i)"
  shows "concatLoop dec d (Some dl) input col is out hs =
           Inr (out @ concat (map (\<lambda>v. dec v @ dl)
                                (if d then firstOccurrences hs (map (\<lambda>i. input ! i ! col) is)
                                 else map (\<lambda>i. input ! i ! col) is)),
                if d then hs \<union> set (map (\<lambda>i. input ! i ! col) is) else hs)"
  using assms
proof (induction "is" arbitrary: out hs)
  case Nil
  then show ?case by simp
next
  case (Cons i "is")
  then have c: "cell input i col = Inr (input ! i ! col)"
    by (simp add: cell_valid)
  from Cons.prems have v: "\<forall>i \<in> set is. i < length input \<and> col < length (input ! i)"
    by simp
  show ?case
    using c Cons.IH [OF v] by (auto simp: insert_absorb)
qed

lemma groupConcat_returns:
  assumes "validRun input (inCol a) blockStart blockEnd"
    and "inCol a < length inputTypes"
    and "userData a = Some dl"
  shows "\<exists>out hs'. groupConcat E a blockStart blockEnd input inputTypes inVocab hs = Inr (out, hs')"
proof -
  from assms(1) have v: "\<forall>i \<in> set [blockStart..<blockEnd].
      i < length input \<and> inCol a < length (input ! i)"
    and c: "cell input blockEnd (inCol a) = Inr (input ! blockEnd ! inCol a)"
    by (auto simp: validRun_def cell_valid)
  show ?thesis
    using assms(2,3) c
    by (simp add: groupConcat_def Let_def concatLoop_valid [OF v])
qed

text \<open>
  Claim C9. Every cell that a GROUP_CONCAT kernel writes holds an index strictly below
  the size of the output table's local vocabulary as the kernel leaves it: the cell gets
  the size of the vocabulary, and the built string is appended behind the entries that
  were there, which stay as they are. On a readable run with a separator the kernel does
  return such a row.
\<close>

theorem group_concat_cell_below_vocab_size:
  assumes "aggType a = GROUP_CONCAT"
  shows "(\<forall>row vocab hs'.
            processGroup E a blockStart blockEnd input inputTypes resultRow inVocab outVocab hs
              = Inr (row, vocab, hs') \<longrightarrow>
            outCol a < length row
            \<and> row = resultRow[outCol a := word_of_nat (length outVocab)]
            \<and> length vocab = Suc (length outVocab)
            \<and> take (length outVocab) vocab = outVocab
            \<and> unat (row ! outCol a) < length vocab)
         \<and> (validRun input (inCol a) blockStart blockEnd \<and> inCol a < length inputTypes
              \<and> outCol a < length resultRow \<and> userData a \<noteq> None \<longrightarrow>
             (\<exists>row vocab hs'.
                processGroup E a blockStart blockEnd input inputTypes resultRow inVocab outVocab hs
                  = Inr (row, vocab, hs')))"
proof (intro conjI allI impI)
  fix row vocab hs'
  assume p: "processGroup E a blockStart blockEnd input inputTypes resultRow inVocab outVocab hs
              = Inr (row, vocab, hs')"
  from p assms obtain out where
    row: "row = resultRow[outCol a := word_of_nat (length outVocab)]"
    and len: "outCol a < length resultRow"
    and vocab: "vocab = outVocab @ [out]"
    by (auto simp: processGroup_def setCell_def split: sum.splits if_splits)
  have "unat (word_of_nat (length outVocab) :: Id) \<le> length outVocab"
    by (simp add: unat_of_nat)
  with row len vocab
  show "outCol a < length row"
    and "row = resultRow[outCol a := word_of_nat (length outVocab)]"
    and "length vocab = Suc (length outVocab)"
    and "take (length outVocab) vocab = outVocab"
    and "unat (row ! outCol a) < length vocab"
    by simp_all
next
  assume h: "validRun input (inCol a) blockStart blockEnd \<and> inCol a < length inputTypes
              \<and> outCol a < length resultRow \<and> userData a \<noteq> None"
  then obtain dl where "userData a = Some dl" by auto
  with h groupConcat_returns [of input a blockStart blockEnd inputTypes dl E inVocab hs]
  obtain out hs' where
    "groupConcat E a blockStart blockEnd input inputTypes inVocab hs = Inr (out, hs')"
    by blast
  with assms h
  show "\<exists>row vocab hs'.
          processGroup E a blockStart blockEnd input inputTypes resultRow inVocab outVocab hs
            = Inr (row, vocab, hs')"
    by (simp add: processGroup_def setCell_def)
qed

theorem group_concat_cell_below_vocab_size_witness:
  "aggType \<lparr>aggType = GROUP_CONCAT, inCol = 1, outCol = 1, userData = Some '','',
            isDistinct = False\<rparr> = GROUP_CONCAT
   \<and> processGroup exampleEnv
        \<lparr>aggType = GROUP_CONCAT, inCol = 1, outCol = 1, userData = Some '','',
         isDistinct = False\<rparr>
        0 1 [[1, 0], [1, 1]] [VERBATIM, STRING] [1, 0] [''a'', ''b''] [''x y''] {}
      = Inr ([1, 1], [''x y'', ''a,b''], {})
   \<and> unat ([1, 1 :: Id] ! 1) < length [''x y'', ''a,b'']"
proof -
  let ?a = "\<lparr>aggType = GROUP_CONCAT, inCol = 1, outCol = 1, userData = Some '','',
             isDistinct = False\<rparr>"
  have h: "aggType ?a = GROUP_CONCAT" by simp
  have p: "processGroup exampleEnv ?a 0 1 [[1, 0], [1, 1]] [VERBATIM, STRING] [1, 0]
             [''a'', ''b''] [''x y''] {} = Inr ([1, 1], [''x y'', ''a,b''], {})"
    by code_simp
  from group_concat_cell_below_vocab_size [OF h, THEN conjunct1, rule_format, OF p]
  have "unat ([1, 1 :: Id] ! outCol ?a) < length [''x y'', ''a,b'']"
    by blast
  with h p show ?thesis by simp
qed

lemma joinWith_snoc:
  "concat (map (\<lambda>v. f v @ dl) xs) @ f y = joinWith dl (map f (xs @ [y]))"
proof (induction xs)
  case Nil
  then show ?case by simp
next
  case (Cons x xs)
  then show ?case by (cases xs) auto
qed

text \<open>
  Without DISTINCT the kernel builds what the specification says: the texts of the
  values of the run joined by the separator, with no separator behind the last one.
\<close>

lemma group_concat_plain_is_join:
  assumes "validRun input (inCol a) blockStart blockEnd"
    and "inCol a < length inputTypes"
    and "userData a = Some dl"
    and "\<not> isDistinct a"
  shows "groupConcat E a blockStart blockEnd input inputTypes inVocab hs =
           Inr (joinWith dl
                  (map (concatText E inVocab (inputTypes ! inCol a))
                     (columnValues input (inCol a) blockStart blockEnd)), hs)"
proof -
  from assms(1) have v: "\<forall>i \<in> set [blockStart..<blockEnd].
      i < length input \<and> inCol a < length (input ! i)"
    and c: "cell input blockEnd (inCol a) = Inr (input ! blockEnd ! inCol a)"
    and le: "blockStart \<le> blockEnd"
    by (auto simp: validRun_def cell_valid)
  have cv: "columnValues input (inCol a) blockStart blockEnd =
          map (\<lambda>i. input ! i ! inCol a) [blockStart..<blockEnd] @ [input ! blockEnd ! inCol a]"
    using le by (simp add: columnValues_def)
  let ?dec = "concatText E inVocab (inputTypes ! inCol a)"
  have "groupConcat E a blockStart blockEnd input inputTypes inVocab hs =
          Inr (concat (map (\<lambda>v. ?dec v @ dl)
                         (map (\<lambda>i. input ! i ! inCol a) [blockStart..<blockEnd]))
               @ ?dec (input ! blockEnd ! inCol a), hs)"
    using assms(2,3,4) c
    by (simp add: groupConcat_def Let_def concatLoop_valid [OF v])
  then show ?thesis
    by (simp only: joinWith_snoc cv)
qed

subsection \<open>LIMIT and OFFSET\<close>

lemma length_limitRows:
  "length (limitRows lmt off t) =
     (case lmt of None \<Rightarrow> length t - off | Some l \<Rightarrow> min l (length t - off))"
  by (auto simp: limitRows_def min.commute split: option.splits)

lemma concat_limitChunks:
  "concat (limitChunks lmt off cs) = limitRows lmt off (concat cs)"
proof (induction cs arbitrary: lmt off)
  case Nil
  then show ?case by (simp add: limitRows_def split: option.splits)
next
  case (Cons c cs)
  show ?case
  proof (cases lmt)
    case None
    then show ?thesis using Cons.IH [of None] by (simp add: limitRows_def Let_def)
  next
    case (Some l)
    then show ?thesis
      using Cons.IH [of "Some (l - length (take l (drop off c)))" "off - length c"]
      by (simp add: limitRows_def Let_def take_add min_def) 
  qed
qed


text \<open>
  Claim C6. For a clause with limit \<open>l\<close> and offset \<open>off\<close>, the result that
  \<open>applyLimitOffset\<close> leaves has \<open>max(0, min(l, n - off))\<close> rows, where \<open>n\<close> is the number
  of rows of the source, whether the result is a table or a stream of chunks; without a
  limit it has the \<open>n - off\<close> rows behind the offset. A limit of 0 leaves no row, and
  so does an offset at or behind the end of the source; the function is total, so
  neither case is an error. The table of the repository's test keeps its rows 2 and 3
  under \<open>{limit 2, offset 2}\<close>.
\<close>

theorem applyLimitOffset_row_count:
  "int (rowCount (applyLimitOffset \<lparr>limit = Some l, offset = off\<rparr> r)) =
     max 0 (min (int l) (int (rowCount r) - int off))
   \<and> rowCount (applyLimitOffset \<lparr>limit = None, offset = off\<rparr> r) = rowCount r - off
   \<and> rowCount (applyLimitOffset \<lparr>limit = Some 0, offset = off\<rparr> r) = 0
   \<and> (rowCount r \<le> off \<longrightarrow> rowCount (applyLimitOffset \<lparr>limit = lmt, offset = off\<rparr> r) = 0)
   \<and> applyLimitOffset \<lparr>limit = Some 2, offset = 2\<rparr>
        (Materialized [[0, 9], [1, 8], [2, 7], [3, 6], [4, 5]])
      = Materialized [[2, 7], [3, 6]]"
  by (cases r) (auto simp: rowCount_def applyLimitOffset_def concat_limitChunks length_limitRows
      limitRows_def split: option.splits)

theorem applyLimitOffset_row_count_witness:
  "rowCount (Lazy [[[0, 7], [1, 6]], [[2, 5], [3, 4]]]) \<le> 7
   \<and> rowCount (applyLimitOffset \<lparr>limit = Some 3, offset = 7\<rparr>
                  (Lazy [[[0, 7], [1, 6]], [[2, 5], [3, 4]]])) = 0"
proof -
  have h: "rowCount (Lazy [[[0, 7], [1, 6]], [[2, 5], [3, 4]]]) \<le> 7"
    by (simp add: rowCount_def)
  from applyLimitOffset_row_count
    [of 0 7 "Lazy [[[0, 7], [1, 6]], [[2, 5], [3, 4]]]" "Some 3"] h
  show ?thesis by blast
qed

subsection \<open>The DISTINCT keyword\<close>

lemma find_str_iff: "find_str pat s \<noteq> None \<longleftrightarrow> (\<exists>u v. s = u @ pat @ v)"
proof (induction s)
  case Nil
  then show ?case by auto
next
  case (Cons x xs)
  show ?case
  proof (cases "startsWith (x # xs) pat")
    case True
    then obtain r where "x # xs = pat @ r" by (auto simp: startsWith_iff)
    then have "x # xs = [] @ pat @ r" by simp
    then have "\<exists>u v. x # xs = u @ pat @ v" by blast
    with True show ?thesis by simp
  next
    case False
    have "(\<exists>u v. x # xs = u @ pat @ v) \<longleftrightarrow> (\<exists>u v. xs = u @ pat @ v)"
    proof
      assume "\<exists>u v. x # xs = u @ pat @ v"
      then obtain u v where e: "x # xs = u @ pat @ v" by blast
      show "\<exists>u v. xs = u @ pat @ v"
      proof (cases u)
        case Nil
        with e False show ?thesis by (auto simp: startsWith_iff)
      next
        case (Cons y u')
        with e have "xs = u' @ pat @ v" by simp
        then show ?thesis by blast
      qed
    next
      assume "\<exists>u v. xs = u @ pat @ v"
      then obtain u v where "xs = u @ pat @ v" by blast
      then have "x # xs = (x # u) @ pat @ v" by simp
      then show "\<exists>u v. x # xs = u @ pat @ v" by blast
    qed
    with False Cons.IH show ?thesis by simp
  qed
qed

lemma find_char_less: "find_char c s = Some i \<Longrightarrow> i < length s"
  by (induction s arbitrary: i) (auto split: if_splits)

lemma rfind_char_less: "rfind_char c s = Some i \<Longrightarrow> i < length s"
  by (induction s arbitrary: i) (auto split: if_splits option.splits)

lemma parseSeparator_returns:
  assumes "find_char c f = Some dp"
  shows "\<exists>lg sep. parseSeparator f dp ve = Inr (lg, sep)"
proof -
  have "dp < length f" using assms by (rule find_char_less)
  then show ?thesis
    by (auto simp: parseSeparator_def substr_def Let_def
        dest: find_char_less split: option.splits)
qed

lemma hasDistinct_iff:
  "hasDistinct f \<longleftrightarrow> (\<exists>u v. f = u @ ''DISTINCT'' @ v) \<or> (\<exists>u v. f = u @ ''distinct'' @ v)"
  unfolding hasDistinct_def find_str_iff ..

lemma parseArgs_returns:
  assumes "bracketsFound (find_char CHR ''('' f) (rfind_char CHR '')'' f)"
    and "hasDistinct f \<longrightarrow> 8 \<le> length (strip (argumentText t f) space_tab)"
  shows "\<exists>p. parseArgs t f = Inr p \<and> pDistinct p = hasDistinct f
           \<and> pInVarName p =
               (if hasDistinct f then drop 8 (strip (argumentText t f) space_tab)
                else argumentText t f)"
proof -
  from assms(1) obtain vs ve where
    vs: "find_char CHR ''('' f = Some vs" and ve: "rfind_char CHR '')'' f = Some ve"
    and lt: "vs < ve"
    by (auto simp: bracketsFound_def split: option.splits)
  have vl: "vs < length f" using vs by (rule find_char_less)
  show ?thesis
  proof (cases "t = GROUP_CONCAT \<and> find_char CHR '';'' f \<noteq> None")
    case True
    then obtain dp where dp: "find_char CHR '';'' f = Some dp" by auto
    from parseSeparator_returns [OF dp, of ve] obtain lg sep where
      "parseSeparator f dp ve = Inr (lg, sep)" by blast
    with True dp vs ve vl assms show ?thesis
      by (auto simp: parseArgs_def parseGroupConcatArgs_def argumentText_def substr_def
          substr_from_def dropDistinct_def Let_def)
  next
    case False
    with vs ve vl assms show ?thesis
      by (auto simp: parseArgs_def parseGroupConcatArgs_def parsePlainArgs_def
          argumentText_def substr_def substr_from_def dropDistinct_def Let_def
          split: option.splits if_splits)
  qed
qed


lemma strip_infix: "\<exists>a b. text = a @ strip text chars @ b"
proof -
  let ?P = "\<lambda>c. c \<in> set chars"
  let ?d = "dropWhile ?P text"
  have "text = takeWhile ?P text @ ?d"
    by simp
  moreover have "rev ?d = takeWhile ?P (rev ?d) @ dropWhile ?P (rev ?d)"
    by simp
  then have "?d = rev (dropWhile ?P (rev ?d)) @ rev (takeWhile ?P (rev ?d))"
    by (metis rev_append rev_rev_ident)
  ultimately have "text = takeWhile ?P text @ strip text chars @ rev (takeWhile ?P (rev ?d))"
    by (simp add: strip_def)
  then show ?thesis by blast
qed

lemma argumentText_infix: "\<exists>a b. f = a @ argumentText t f @ b"
proof -
  have "\<exists>a b. f = a @ take n (drop k f) @ b" for n k
    by (metis append_take_drop_id)
  then show ?thesis
    by (auto simp: argumentText_def Let_def split: option.splits)
qed

lemma leading_keyword_occurs:
  assumes "strip (argumentText t f) space_tab = kw @ rest"
  shows "\<exists>u v. f = u @ kw @ v"
proof -
  from argumentText_infix [of f t] obtain a b where f: "f = a @ argumentText t f @ b"
    by blast
  from strip_infix [of "argumentText t f" space_tab] obtain c d where
    "argumentText t f = c @ strip (argumentText t f) space_tab @ d"
    by blast
  with assms have "argumentText t f = c @ kw @ rest @ d"
    by simp
  with f have "f = (a @ c) @ kw @ (rest @ d @ b)"
    by (metis append.assoc)
  then show ?thesis by blast
qed

lemma resolveAliases_single:
  assumes "isAggregate a" and "classify (func a) = Some t" and "parseArgs t (func a) = Inr p"
    and "m (strip (pInVarName p) space_tab) = Some c"
    and "map_of (varColMap g) (outVarName a) = Some oc"
  shows "resolveAliases g m [a] lg ags =
           Inr (lg @ pLog p,
                Some (ags @ [\<lparr>aggType = t, inCol = c, outCol = oc,
                               userData = pUserData p, isDistinct = pDistinct p\<rparr>]))"
  using assms by (simp add: Let_def)

text \<open>
  Claim C3, as the source has it. The source knows the keyword in two spellings,
  \<open>DISTINCT\<close> and \<open>distinct\<close>, and in no other letter case. For every function text with
  an opening bracket before its last closing bracket: when the argument, stripped of
  blanks and tabs, begins with the keyword in one of these two spellings, the distinct
  flag of the descriptor is true and the keyword, its leading 8 characters, is removed
  from the argument before the variable name is stripped again and looked up; when
  neither spelling occurs in the function text, the flag is false and the argument is
  looked up as it is. The descriptor that the alias loop appends carries this flag and
  the column of that variable.
\<close>

theorem leading_distinct_keyword_sets_flag:
  assumes "bracketsFound (find_char CHR ''('' f) (rfind_char CHR '')'' f)"
  shows "((kw = ''DISTINCT'' \<or> kw = ''distinct'')
            \<and> strip (argumentText t f) space_tab = kw @ rest \<longrightarrow>
          (\<exists>p. parseArgs t f = Inr p \<and> pDistinct p \<and> pInVarName p = rest
             \<and> (isAggregate a \<and> func a = f \<and> classify f = Some t
                  \<and> m (strip rest space_tab) = Some c
                  \<and> map_of (varColMap g) (outVarName a) = Some oc \<longrightarrow>
                 resolveAliases g m [a] lg ags =
                   Inr (lg @ pLog p,
                        Some (ags @ [\<lparr>aggType = t, inCol = c, outCol = oc,
                                       userData = pUserData p, isDistinct = True\<rparr>])))))
       \<and> (\<not> (\<exists>u v. f = u @ ''DISTINCT'' @ v) \<and> \<not> (\<exists>u v. f = u @ ''distinct'' @ v) \<longrightarrow>
          (\<exists>p. parseArgs t f = Inr p \<and> \<not> pDistinct p \<and> pInVarName p = argumentText t f
             \<and> (isAggregate a \<and> func a = f \<and> classify f = Some t
                  \<and> m (strip (argumentText t f) space_tab) = Some c
                  \<and> map_of (varColMap g) (outVarName a) = Some oc \<longrightarrow>
                 resolveAliases g m [a] lg ags =
                   Inr (lg @ pLog p,
                        Some (ags @ [\<lparr>aggType = t, inCol = c, outCol = oc,
                                       userData = pUserData p, isDistinct = False\<rparr>])))))"
proof (intro conjI impI)
  assume h: "(kw = ''DISTINCT'' \<or> kw = ''distinct'')
               \<and> strip (argumentText t f) space_tab = kw @ rest"
  then have s: "strip (argumentText t f) space_tab = kw @ rest" and k: "length kw = 8"
    by auto
  from leading_keyword_occurs [OF s] obtain u v where "f = u @ kw @ v"
    by blast
  with h have "(\<exists>u v. f = u @ ''DISTINCT'' @ v) \<or> (\<exists>u v. f = u @ ''distinct'' @ v)"
    by blast
  then have d: "hasDistinct f"
    by (simp only: hasDistinct_iff)
  from s k have "8 \<le> length (strip (argumentText t f) space_tab)"
    by simp
  with parseArgs_returns [OF assms, of t] d s k obtain p where
    p: "parseArgs t f = Inr p" "pDistinct p" "pInVarName p = rest"
    by auto
  have "resolveAliases g m [a] lg ags =
          Inr (lg @ pLog p,
               Some (ags @ [\<lparr>aggType = t, inCol = c, outCol = oc,
                              userData = pUserData p, isDistinct = True\<rparr>]))"
    if "isAggregate a \<and> func a = f \<and> classify f = Some t
        \<and> m (strip rest space_tab) = Some c
        \<and> map_of (varColMap g) (outVarName a) = Some oc"
    using that p resolveAliases_single [of a t p m c g oc lg ags] by simp
  with p show "\<exists>p. parseArgs t f = Inr p \<and> pDistinct p \<and> pInVarName p = rest
             \<and> (isAggregate a \<and> func a = f \<and> classify f = Some t
                  \<and> m (strip rest space_tab) = Some c
                  \<and> map_of (varColMap g) (outVarName a) = Some oc \<longrightarrow>
                 resolveAliases g m [a] lg ags =
                   Inr (lg @ pLog p,
                        Some (ags @ [\<lparr>aggType = t, inCol = c, outCol = oc,
                                       userData = pUserData p, isDistinct = True\<rparr>])))"
    by blast
next
  assume "\<not> (\<exists>u v. f = u @ ''DISTINCT'' @ v) \<and> \<not> (\<exists>u v. f = u @ ''distinct'' @ v)"
  then have d: "\<not> hasDistinct f"
    by (simp add: hasDistinct_iff)
  with parseArgs_returns [OF assms, of t] obtain p where
    p: "parseArgs t f = Inr p" "\<not> pDistinct p" "pInVarName p = argumentText t f"
    by auto
  have "resolveAliases g m [a] lg ags =
          Inr (lg @ pLog p,
               Some (ags @ [\<lparr>aggType = t, inCol = c, outCol = oc,
                              userData = pUserData p, isDistinct = False\<rparr>]))"
    if "isAggregate a \<and> func a = f \<and> classify f = Some t
        \<and> m (strip (argumentText t f) space_tab) = Some c
        \<and> map_of (varColMap g) (outVarName a) = Some oc"
    using that p resolveAliases_single [of a t p m c g oc lg ags] by simp
  with p show "\<exists>p. parseArgs t f = Inr p \<and> \<not> pDistinct p \<and> pInVarName p = argumentText t f
             \<and> (isAggregate a \<and> func a = f \<and> classify f = Some t
                  \<and> m (strip (argumentText t f) space_tab) = Some c
                  \<and> map_of (varColMap g) (outVarName a) = Some oc \<longrightarrow>
                 resolveAliases g m [a] lg ags =
                   Inr (lg @ pLog p,
                        Some (ags @ [\<lparr>aggType = t, inCol = c, outCol = oc,
                                       userData = pUserData p, isDistinct = False\<rparr>])))"
    by blast
qed


theorem leading_distinct_keyword_sets_flag_witness:
  "bracketsFound (find_char CHR ''('' ''COUNT( distinct   ?x )'')
     (rfind_char CHR '')'' ''COUNT( distinct   ?x )'')
   \<and> strip (argumentText COUNT ''COUNT( distinct   ?x )'') space_tab = ''distinct'' @ ''   ?x''
   \<and> resolveAliases \<lparr>groupByVariables = [], aliases = [], varColMap = [(''?n'', 0)]\<rparr>
        [''?x'' \<mapsto> 3]
        [\<lparr>outVarName = ''?n'', func = ''COUNT( distinct   ?x )'', isAggregate = True\<rparr>] [] []
      = Inr ([], Some [\<lparr>aggType = COUNT, inCol = 3, outCol = 0, userData = None,
                         isDistinct = True\<rparr>])
   \<and> bracketsFound (find_char CHR ''('' ''COUNT(?x)'') (rfind_char CHR '')'' ''COUNT(?x)'')
   \<and> \<not> hasDistinct ''COUNT(?x)''
   \<and> resolveAliases \<lparr>groupByVariables = [], aliases = [], varColMap = [(''?n'', 0)]\<rparr>
        [''?x'' \<mapsto> 3]
        [\<lparr>outVarName = ''?n'', func = ''COUNT(?x)'', isAggregate = True\<rparr>] [] []
      = Inr ([], Some [\<lparr>aggType = COUNT, inCol = 3, outCol = 0, userData = None,
                         isDistinct = False\<rparr>])"
proof -
  let ?f1 = "''COUNT( distinct   ?x )''" and ?f2 = "''COUNT(?x)''"
  let ?a1 = "\<lparr>outVarName = ''?n'', func = ?f1, isAggregate = True\<rparr>"
  let ?a2 = "\<lparr>outVarName = ''?n'', func = ?f2, isAggregate = True\<rparr>"
  let ?g = "\<lparr>groupByVariables = [], aliases = [], varColMap = [(''?n'', 0)]\<rparr>"
  let ?m = "[''?x'' \<mapsto> (3::nat)]"
  have b1: "bracketsFound (find_char CHR ''('' ?f1) (rfind_char CHR '')'' ?f1)"
    by code_simp
  have s1: "strip (argumentText COUNT ?f1) space_tab = ''distinct'' @ ''   ?x''"
    by code_simp
  have n1: "strip ''   ?x'' space_tab = ''?x''"
    by code_simp
  have c1: "classify ?f1 = Some COUNT"
    by code_simp
  from leading_distinct_keyword_sets_flag
    [OF b1, of "''distinct''" COUNT "''   ?x''" ?a1 ?m 3 ?g 0 "[]" "[]", THEN conjunct1] s1
  obtain p where p: "parseArgs COUNT ?f1 = Inr p"
    and r: "isAggregate ?a1 \<and> func ?a1 = ?f1 \<and> classify ?f1 = Some COUNT
             \<and> ?m (strip ''   ?x'' space_tab) = Some 3
             \<and> map_of (varColMap ?g) (outVarName ?a1) = Some 0 \<longrightarrow>
            resolveAliases ?g ?m [?a1] [] [] =
              Inr ([] @ pLog p,
                   Some ([] @ [\<lparr>aggType = COUNT, inCol = 3, outCol = 0,
                                  userData = pUserData p, isDistinct = True\<rparr>]))"
    by blast
  have "parseArgs COUNT ?f1
          = Inr \<lparr>pLog = [], pDistinct = True, pUserData = None, pInVarName = ''   ?x''\<rparr>"
    by code_simp
  with p have pl: "pLog p = []" "pUserData p = None"
    by auto
  from r n1 c1 pl have r1: "resolveAliases ?g ?m [?a1] [] [] =
      Inr ([], Some [\<lparr>aggType = COUNT, inCol = 3, outCol = 0, userData = None,
                       isDistinct = True\<rparr>])"
    by simp
  have b2: "bracketsFound (find_char CHR ''('' ?f2) (rfind_char CHR '')'' ?f2)"
    by code_simp
  have d2: "\<not> hasDistinct ?f2"
    by code_simp
  have d2': "\<not> (\<exists>u v. ?f2 = u @ ''DISTINCT'' @ v) \<and> \<not> (\<exists>u v. ?f2 = u @ ''distinct'' @ v)"
    using d2 unfolding hasDistinct_iff by blast
  have n2: "strip (argumentText COUNT ?f2) space_tab = ''?x''"
    by code_simp
  have c2: "classify ?f2 = Some COUNT"
    by code_simp
  from leading_distinct_keyword_sets_flag
    [OF b2, of "''distinct''" COUNT "[]" ?a2 ?m 3 ?g 0 "[]" "[]", THEN conjunct2] d2'
  obtain q where q: "parseArgs COUNT ?f2 = Inr q"
    and r: "isAggregate ?a2 \<and> func ?a2 = ?f2 \<and> classify ?f2 = Some COUNT
             \<and> ?m (strip (argumentText COUNT ?f2) space_tab) = Some 3
             \<and> map_of (varColMap ?g) (outVarName ?a2) = Some 0 \<longrightarrow>
            resolveAliases ?g ?m [?a2] [] [] =
              Inr ([] @ pLog q,
                   Some ([] @ [\<lparr>aggType = COUNT, inCol = 3, outCol = 0,
                                  userData = pUserData q, isDistinct = False\<rparr>]))"
    by blast
  have "parseArgs COUNT ?f2
          = Inr \<lparr>pLog = [], pDistinct = False, pUserData = None, pInVarName = ''?x''\<rparr>"
    by code_simp
  with q have ql: "pLog q = []" "pUserData q = None"
    by auto
  from r n2 c2 ql have r2: "resolveAliases ?g ?m [?a2] [] [] =
      Inr ([], Some [\<lparr>aggType = COUNT, inCol = 3, outCol = 0, userData = None,
                       isDistinct = False\<rparr>])"
    by simp
  from b1 s1 r1 b2 d2 r2 show ?thesis
    by blast
qed

text \<open>
  The claim as the specification words it, with the keyword in any letter case, fails on
  \<open>COUNT(Distinct ?x)\<close>: the flag stays false, nothing is removed from the argument, and
  the name \<open>Distinct ?x\<close> is looked up and not found although \<open>?x\<close> is a column.
\<close>

theorem mixed_case_distinct_is_not_recognised:
  "parseArgs COUNT ''COUNT(Distinct ?x)''
     = Inr \<lparr>pLog = [], pDistinct = False, pUserData = None, pInVarName = ''Distinct ?x''\<rparr>
   \<and> resolveAliases \<lparr>groupByVariables = [], aliases = [], varColMap = [(''?n'', 0)]\<rparr>
        [''?x'' \<mapsto> 0]
        [\<lparr>outVarName = ''?n'', func = ''COUNT(Distinct ?x)'', isAggregate = True\<rparr>] [] []
     = Inr ([AliasRefersToMissingColumn ''COUNT(Distinct ?x)''], None)"
  by code_simp

text \<open>
  The search of lines 814-815 and 859-860 runs over the whole function text, not over
  the head of the argument. Where one of the two spellings stands elsewhere, the flag is
  set all the same and \<open>substr(8)\<close> cuts 8 characters that are no keyword, or throws when
  the stripped argument has fewer than 8 characters. The theorem above says nothing
  about these texts.
\<close>

lemma distinct_inside_a_name_sets_flag:
  "parseArgs COUNT ''COUNT(?distinct_x)''
     = Inr \<lparr>pLog = [], pDistinct = True, pUserData = None, pInVarName = ''t_x''\<rparr>"
  by code_simp

lemma short_argument_beside_distinct_raises:
  \<open>parseArgs GROUP_CONCAT ''GROUP_CONCAT(?x ; SEPARATOR=" distinct ")'' = Inl OutOfRange\<close>
  by code_simp


subsection \<open>The column layout\<close>

lemma sorted_names_unique:
  assumes "sortsByOutVarName sortAliases"
  shows "map outVarName (sortAliases xs) = sort (map outVarName xs)"
proof -
  from assms have m: "mset (sortAliases xs) = mset xs"
    and s: "sorted (map outVarName (sortAliases xs))"
    by (auto simp: sortsByOutVarName_def)
  from m have "mset (map outVarName (sortAliases xs)) = mset (map outVarName xs)"
    by simp
  with s show ?thesis
    by (metis properties_for_sort)
qed


lemma assignColumns_index: "snd (assignColumns ns c m) = c + length ns"
  by (induction ns arbitrary: c m) auto

lemma assignColumns_append:
  "assignColumns (ns @ ms) c m =
     assignColumns ms (c + length ns) (fst (assignColumns ns c m))"
  by (induction ns arbitrary: c m) auto

lemma assignColumns_dom:
  "dom (map_of (fst (assignColumns ns c m))) = dom (map_of m) \<union> set ns"
  by (induction ns arbitrary: c m) (auto simp: update_conv')

lemma assignColumns_distinct:
  "distinct (map fst m) \<Longrightarrow> distinct (map fst (fst (assignColumns ns c m)))"
  by (induction ns arbitrary: c m) (auto simp: distinct_update)


lemma GroupBy_ctor_parts:
  assumes "sortsByOutVarName sortAliases"
  shows "groupByVariables (GroupBy_ctor sortAliases gvars als) = sort gvars"
    and "aliases (GroupBy_ctor sortAliases gvars als) = sortAliases (filter isAggregate als)"
    and "varColMap (GroupBy_ctor sortAliases gvars als) =
           fst (assignColumns
                  (sort gvars @ sort (map outVarName (filter isAggregate als))) 0 [])"
proof -
  obtain m1 c1 where a1: "assignColumns (sort gvars) 0 [] = (m1, c1)"
    by (cases "assignColumns (sort gvars) 0 []")
  obtain m2 c2 where a2:
    "assignColumns (map outVarName (sortAliases (filter isAggregate als))) c1 m1 = (m2, c2)"
    by (cases "assignColumns (map outVarName (sortAliases (filter isAggregate als))) c1 m1")
  from a1 have c1: "c1 = length (sort gvars)" and m1: "m1 = fst (assignColumns (sort gvars) 0 [])"
    using assignColumns_index [of "sort gvars" 0 "[]"] by auto
  show "groupByVariables (GroupBy_ctor sortAliases gvars als) = sort gvars"
    and "aliases (GroupBy_ctor sortAliases gvars als) = sortAliases (filter isAggregate als)"
    by (simp_all add: GroupBy_ctor_def Let_def a1 a2)
  have "varColMap (GroupBy_ctor sortAliases gvars als) = m2"
    by (simp add: GroupBy_ctor_def Let_def a1 a2)
  also have "m2 = fst (assignColumns
                  (sort gvars @ map outVarName (sortAliases (filter isAggregate als))) 0 [])"
    using a2 by (simp add: assignColumns_append c1 m1)
  finally show "varColMap (GroupBy_ctor sortAliases gvars als) =
           fst (assignColumns
                  (sort gvars @ sort (map outVarName (filter isAggregate als))) 0 [])"
    by (simp add: sorted_names_unique [OF assms])
qed





subsection \<open>Missing variables\<close>

lemma GroupBy_ctor_columns:
  assumes "sortsByOutVarName sortAliases"
  shows "\<forall>v \<in> set (groupByVariables (GroupBy_ctor sortAliases gvars als)).
           map_of (varColMap (GroupBy_ctor sortAliases gvars als)) v \<noteq> None"
    and "\<forall>a \<in> set (aliases (GroupBy_ctor sortAliases gvars als)).
           map_of (varColMap (GroupBy_ctor sortAliases gvars als)) (outVarName a) \<noteq> None"
proof -
  let ?g = "GroupBy_ctor sortAliases gvars als"
  note parts = GroupBy_ctor_parts [OF assms, of gvars als]
  have d: "dom (map_of (varColMap ?g)) = set gvars \<union> outVarName ` {a \<in> set als. isAggregate a}"
    by (auto simp: parts assignColumns_dom)
  from assms have "mset (aliases ?g) = mset (filter isAggregate als)"
    by (simp add: parts sortsByOutVarName_def)
  then have s: "set (aliases ?g) = {a \<in> set als. isAggregate a}"
    by (metis set_mset_mset set_filter)
  show "\<forall>v \<in> set (groupByVariables ?g). map_of (varColMap ?g) v \<noteq> None"
    using d by (auto simp: parts(1))
  show "\<forall>a \<in> set (aliases ?g). map_of (varColMap ?g) (outVarName a) \<noteq> None"
    using d s by blast
qed

lemma resolveGroupByVariables_missing:
  assumes "\<exists>v \<in> set vars. m v = None"
    and "\<forall>v \<in> set vars. map_of (varColMap g) v \<noteq> None"
  shows "\<exists>v \<in> set vars. m v = None
           \<and> resolveGroupByVariables g m vars cols ags
               = Inr ([GroupByVariableNotPartOfQuery v], None)"
  using assms
proof (induction vars arbitrary: cols ags)
  case Nil
  then show ?case by simp
next
  case (Cons x vars)
  show ?case
  proof (cases "m x")
    case None
    then show ?thesis by auto
  next
    case (Some c)
    with Cons.prems have "\<exists>v \<in> set vars. m v = None"
      and "\<forall>v \<in> set vars. map_of (varColMap g) v \<noteq> None"
      by auto
    from Cons.IH [OF this] Some Cons.prems(2) show ?thesis
      by (auto split: option.splits)
  qed
qed

lemma resolveGroupByVariables_present:
  assumes "\<forall>v \<in> set vars. m v \<noteq> None"
    and "\<forall>v \<in> set vars. map_of (varColMap g) v \<noteq> None"
  shows "\<exists>cols' ags'. resolveGroupByVariables g m vars cols ags = Inr ([], Some (cols', ags'))"
  using assms
  by (induction vars arbitrary: cols ags) (auto split: option.splits)

lemma resolveAliases_reaches_missing:
  assumes "\<forall>b \<in> set (pre @ [a]). map_of (varColMap g) (outVarName b) \<noteq> None"
    and "\<forall>b \<in> set pre. \<forall>e. argumentVariable b \<noteq> Some (Inl e)"
    and "argumentVariable a = Some (Inr v)"
    and "m v = None"
  shows "\<exists>lg'. resolveAliases g m (pre @ a # post) lg ags = Inr (lg', None) \<and> lg' \<noteq> []
           \<and> (\<exists>b \<in> set (pre @ [a]). last lg' = AliasRefersToMissingColumn (func b))"
  using assms(1,2)
proof (induction pre arbitrary: lg ags)
  case Nil
  with assms(3,4) show ?case
    by (auto simp: argumentVariable_def Let_def split: if_splits option.splits sum.splits)
next
  case (Cons b pre)
  from Cons.prems have ih: "\<And>lg ags.
      \<exists>lg'. resolveAliases g m (pre @ a # post) lg ags = Inr (lg', None) \<and> lg' \<noteq> []
           \<and> (\<exists>b \<in> set (pre @ [a]). last lg' = AliasRefersToMissingColumn (func b))"
    by (intro Cons.IH) auto
  from Cons.prems(2) have nr: "\<forall>e. argumentVariable b \<noteq> Some (Inl e)" by simp
  from Cons.prems(1) obtain oc where oc: "map_of (varColMap g) (outVarName b) = Some oc"
    by auto
  show ?case
  proof (cases "argumentVariable b")
    case None
    then consider "\<not> isAggregate b" | "isAggregate b" "classify (func b) = None"
      by (auto simp: argumentVariable_def split: if_splits option.splits sum.splits)
    then show ?thesis
    proof cases
      case 1
      with ih [of lg ags] show ?thesis by auto
    next
      case 2
      with ih [of "lg @ [UnknownAggregate (func b)]" ags] show ?thesis by auto
    qed
  next
    case (Some res)
    with nr obtain w where w: "argumentVariable b = Some (Inr w)"
      by (cases res) auto
    then obtain t p where agg: "isAggregate b" and t: "classify (func b) = Some t"
      and p: "parseArgs t (func b) = Inr p" and wp: "w = strip (pInVarName p) space_tab"
      by (auto simp: argumentVariable_def split: if_splits option.splits sum.splits)
    show ?thesis
    proof (cases "m w")
      case None
      with agg t p wp show ?thesis by (auto simp: Let_def)
    next
      case (Some c)
      with agg t p wp oc
        ih [of "lg @ pLog p" "ags @ [\<lparr>aggType = t, inCol = c, outCol = oc,
                                      userData = pUserData p, isDistinct = pDistinct p\<rparr>]"]
      show ?thesis by (auto simp: Let_def)
    qed
  qed
qed


lemma map_of_Some_nonempty: "map_of xs k \<noteq> None \<Longrightarrow> 1 \<le> length xs"
  by (cases xs) auto

text \<open>
  The two exits of lines 751-768 and 873-890. When the lookup of a group-by variable
  fails, or the alias loop reaches an alias, having read the aliases sorted before it
  without an exception, and does not find its argument variable, \<open>computeResult\<close> returns
  normally. The table has the width \<open>getResultWidth\<close>, which is at least 1; up to a width
  of 5 its rows are a new empty vector, and beyond that its rows are those of the table
  handed in, none for a new table. The last warning logged names the variable or the
  alias. Nothing is aggregated: the outcome is the same for every sub-result and every
  index, and the local vocabulary is as it was.
\<close>

lemma reached_missing_lookup_gives_empty_result:
  fixes E :: "'f Env"
  assumes "sortsByOutVarName sortAliases"
    and "g = GroupBy_ctor sortAliases gvars als"
    and "(\<exists>v \<in> set (groupByVariables g). m v = None)
         \<or> (\<exists>pre a post v. aliases g = pre @ a # post
               \<and> (\<forall>b \<in> set pre. \<forall>e. argumentVariable b \<noteq> Some (Inl e))
               \<and> argumentVariable a = Some (Inr v) \<and> m v = None)"
  shows "\<exists>r lg. computeResult E g m subresult result0 = Inr (r, lg)
           \<and> 1 \<le> getResultWidth g
           \<and> rows r = (if getResultWidth g \<le> 5 then [] else rows result0)
           \<and> nofColumns r = getResultWidth g \<and> finished r
           \<and> localVocab r = localVocab result0
           \<and> lg \<noteq> []
           \<and> ((\<exists>v \<in> set (groupByVariables g).
                  m v = None \<and> last lg = GroupByVariableNotPartOfQuery v)
                \<or> (\<exists>a \<in> set (aliases g). last lg = AliasRefersToMissingColumn (func a)))
           \<and> (\<forall>(E' :: 'f Env) subresult'.
                 computeResult E' g m subresult' result0 = Inr (r, lg))"
proof -
  let ?result = "result0\<lparr>sortedBy := resultSortedOn, nofColumns := getResultWidth g\<rparr>"
  note cols = GroupBy_ctor_columns [OF assms(1), of gvars als, folded assms(2)]
  have width: "1 \<le> getResultWidth g"
  proof (cases "\<exists>v \<in> set (groupByVariables g). m v = None")
    case True
    with cols(1) obtain v where "map_of (varColMap g) v \<noteq> None" by blast
    then show ?thesis
      unfolding getResultWidth_def by (rule map_of_Some_nonempty)
  next
    case False
    with assms(3) obtain pre a post where "aliases g = pre @ a # post" by blast
    then have "a \<in> set (aliases g)" by simp
    with cols(2) have "map_of (varColMap g) (outVarName a) \<noteq> None" by blast
    then show ?thesis
      unfolding getResultWidth_def by (rule map_of_Some_nonempty)
  qed
  have empty: "rows (finishEmpty ?result) = (if getResultWidth g \<le> 5 then [] else rows result0)"
    "nofColumns (finishEmpty ?result) = getResultWidth g"
    "finished (finishEmpty ?result)"
    "localVocab (finishEmpty ?result) = localVocab result0"
    using width by (simp_all add: finishEmpty_def)
  show ?thesis
  proof (cases "\<exists>v \<in> set (groupByVariables g). m v = None")
    case True
    from resolveGroupByVariables_missing [OF True cols(1), of "[]" "[]"]
    obtain v where v: "v \<in> set (groupByVariables g)" "m v = None"
      and r: "resolveGroupByVariables g m (groupByVariables g) [] []
               = Inr ([GroupByVariableNotPartOfQuery v], None)"
      by blast
    have "computeResult E' g m subresult' result0
            = Inr (finishEmpty ?result, [GroupByVariableNotPartOfQuery v])" for E' :: "'f Env"
      and subresult'
      by (simp add: computeResult_def Let_def r)
    with empty v width show ?thesis
      by (intro exI [of _ "finishEmpty ?result"] exI [of _ "[GroupByVariableNotPartOfQuery v]"])
        auto
  next
    case False
    then have "\<forall>v \<in> set (groupByVariables g). m v \<noteq> None" by simp
    from resolveGroupByVariables_present [OF this cols(1), of "[]" "[]"]
    obtain cols0 ags0 where
      r: "resolveGroupByVariables g m (groupByVariables g) [] [] = Inr ([], Some (cols0, ags0))"
      by blast
    from False assms(3) obtain pre a post v where
      al: "aliases g = pre @ a # post"
      and nr: "\<forall>b \<in> set pre. \<forall>e. argumentVariable b \<noteq> Some (Inl e)"
      and av: "argumentVariable a = Some (Inr v)" and mv: "m v = None"
      by blast
    have "\<forall>b \<in> set (pre @ [a]). map_of (varColMap g) (outVarName b) \<noteq> None"
      using cols(2) al by auto
    from resolveAliases_reaches_missing
      [where pre = pre and a = a and g = g and v = v and m = m and post = post
         and lg = "[]" and ags = ags0, OF this nr av mv]
    obtain lg where ra: "resolveAliases g m (pre @ a # post) [] ags0 = Inr (lg, None)"
      and ne: "lg \<noteq> []"
      and w: "\<exists>b \<in> set (pre @ [a]). last lg = AliasRefersToMissingColumn (func b)"
      by blast
    have "computeResult E' g m subresult' result0 = Inr (finishEmpty ?result, lg)"
      for E' :: "'f Env" and subresult'
      by (simp add: computeResult_def Let_def r al ra)
    moreover from w al have "\<exists>a \<in> set (aliases g). last lg = AliasRefersToMissingColumn (func a)"
      by auto
    ultimately show ?thesis
      using empty ne width
      by (intro exI [of _ "finishEmpty ?result"] exI [of _ lg]) auto
  qed
qed

text \<open>
  Claim C7. Whenever a group-by variable or the argument variable of an aggregate alias
  is not among the variables of the subtree, the computation should end with a table of
  no rows and the declared width, a warning, and no exception. The source does so when it
  gets as far as the lookup, as the lemma above shows. It does not get that far for
  \<open>GROUP_CONCAT(?z ; SEPARATOR=" distinct ")\<close> with \<open>?z\<close> missing: the search for the keyword
  (line 815) finds the spelling inside the separator, the flag is set, and line 826
  calls \<open>substr(8)\<close> on the stripped argument \<open>?z\<close>, which throws \<open>std::out_of_range\<close>
  before line 873 looks the variable up. The same query with the separator \<open>", "\<close> takes
  the exit of lines 874-890, as the claim says. The exception of one alias also pre-empts
  the lookup of an alias sorted behind it: with the aliases \<open>?a\<close>, a GROUP_CONCAT of the
  column \<open>?y\<close> with that separator, and \<open>?b\<close>, \<open>SUM(?z)\<close> with \<open>?z\<close> missing, the computation
  throws as well.
\<close>

theorem missing_variable_beside_distinct_raises:
  \<open>computeResult exampleEnv
      (GroupBy_ctor (sort_key outVarName) [''?x'']
         [\<lparr>outVarName = ''?s'', func = ''GROUP_CONCAT(?z ; SEPARATOR=" distinct ")'',
           isAggregate = True\<rparr>])
      [''?x'' \<mapsto> 0, ''?y'' \<mapsto> 1]
      \<lparr>nofColumns = 2, sortedBy = 0, resultTypes = [VERBATIM, STRING],
       rows = [[1, 0], [1, 1]], localVocab = [''a'', ''b''], finished = True\<rparr>
      \<lparr>nofColumns = 0, sortedBy = 0, resultTypes = [], rows = [], localVocab = [],
       finished = False\<rparr>
    = Inl OutOfRange
   \<and> computeResult exampleEnv
      (GroupBy_ctor (sort_key outVarName) [''?x'']
         [\<lparr>outVarName = ''?s'', func = ''GROUP_CONCAT(?z ; SEPARATOR=", ")'',
           isAggregate = True\<rparr>])
      [''?x'' \<mapsto> 0, ''?y'' \<mapsto> 1]
      \<lparr>nofColumns = 2, sortedBy = 0, resultTypes = [VERBATIM, STRING],
       rows = [[1, 0], [1, 1]], localVocab = [''a'', ''b''], finished = True\<rparr>
      \<lparr>nofColumns = 0, sortedBy = 0, resultTypes = [], rows = [], localVocab = [],
       finished = False\<rparr>
    = Inr (\<lparr>nofColumns = 2, sortedBy = 0, resultTypes = [], rows = [], localVocab = [],
            finished = True\<rparr>,
           [AliasRefersToMissingColumn ''GROUP_CONCAT(?z ; SEPARATOR=", ")''])
   \<and> computeResult exampleEnv
      (GroupBy_ctor (sort_key outVarName) [''?x'']
         [\<lparr>outVarName = ''?a'', func = ''GROUP_CONCAT(?y ; SEPARATOR=" distinct ")'',
           isAggregate = True\<rparr>,
          \<lparr>outVarName = ''?b'', func = ''SUM(?z)'', isAggregate = True\<rparr>])
      [''?x'' \<mapsto> 0, ''?y'' \<mapsto> 1]
      \<lparr>nofColumns = 2, sortedBy = 0, resultTypes = [VERBATIM, STRING],
       rows = [[1, 0], [1, 1]], localVocab = [''a'', ''b''], finished = True\<rparr>
      \<lparr>nofColumns = 0, sortedBy = 0, resultTypes = [], rows = [], localVocab = [],
       finished = False\<rparr>
    = Inl OutOfRange\<close>
  by code_simp

text \<open>
  An alias of unknown kind is passed over with its warning before its variable is looked
  up, so a variable missing there is never noticed. The table still counts the column
  of that alias, and line 902 then reads \<open>aggregates[i]\<close> behind the last descriptor.
\<close>

lemma unknown_aggregate_leaves_a_column_without_descriptor:
  \<open>computeResult exampleEnv
      (GroupBy_ctor (sort_key outVarName) [''?x'']
         [\<lparr>outVarName = ''?s'', func = ''MEDIAN(?z)'', isAggregate = True\<rparr>])
      [''?x'' \<mapsto> 0, ''?y'' \<mapsto> 1]
      \<lparr>nofColumns = 2, sortedBy = 0, resultTypes = [VERBATIM, STRING],
       rows = [[1, 0], [1, 1]], localVocab = [''a'', ''b''], finished = True\<rparr>
      \<lparr>nofColumns = 0, sortedBy = 0, resultTypes = [], rows = [], localVocab = [],
       finished = False\<rparr>
    = Inl OutOfBounds\<close>
  by code_simp

end
